theory Spec2Isabelle
  imports Main
begin

section \<open>Python values, exceptions and dictionaries\<close>

text \<open>
  The program is \<^verbatim>\<open>pm/jira_sync.py\<close>. Text is a list of characters (of type \<open>char\<close>, the
  code points below 256); a file's content is its decoded text (the script reads and
  writes with the same codec, UTF-8, which is injective, so equal text is equal bytes).
  The file system is a map from paths to regular files, all of them readable and
  writable: the failures of \<^verbatim>\<open>open\<close> in the model are the missing file and, on reading,
  the file that does not decode.
  Exceptions are values: every function that can raise returns which exception it
  raised. The library functions the script calls (\<^verbatim>\<open>open\<close>, \<^verbatim>\<open>csv.DictReader\<close>,
  \<^verbatim>\<open>csv.DictWriter\<close>, \<^verbatim>\<open>str.replace\<close>, slicing, f-strings) are modelled after CPython 3.11
  and later, for the arguments the script gives them.
\<close>

datatype exn =
    FileNotFoundError | UnicodeDecodeError | CsvError | KeyError | AttributeError | TypeError
  | IndexError | ValueError

text \<open>
  A file holds text, or bytes that are not UTF-8, at which the load fails with
  \<^verbatim>\<open>UnicodeDecodeError\<close>. Which bytes these are does not matter to the script: it can
  only fail to read them, or overwrite them.
\<close>

datatype file_content = Text string | Undecodable

type_synonym path = string
type_synonym filesystem = "path \<rightharpoonup> file_content"

abbreviation LF :: char where "LF \<equiv> CHR 0x0A"
abbreviation CR :: char where "CR \<equiv> CHR 0x0D"
abbreviation DQUOTE :: char where "DQUOTE \<equiv> CHR 0x22"
abbreviation SQUOTE :: char where "SQUOTE \<equiv> CHR 0x27"
abbreviation BACKSLASH :: char where "BACKSLASH \<equiv> CHR 0x5C"
abbreviation COMMA :: char where "COMMA \<equiv> CHR 0x2C"

text \<open>
  The values a row dictionary of \<^verbatim>\<open>csv.DictReader\<close> holds: a string (a field), \<^verbatim>\<open>None\<close>
  (the \<^verbatim>\<open>restval\<close> of a short row) or a list of strings (the surplus fields of a long row,
  stored under the key \<^verbatim>\<open>None\<close>, the \<^verbatim>\<open>restkey\<close>). A key is a column name or \<^verbatim>\<open>None\<close>.
\<close>

datatype pyval = Str string | NoneVal | StrList "string list"

type_synonym key = "string option"
type_synonym pydict = "(key \<times> pyval) list"

text \<open>A dictionary keeps insertion order; storing under an existing key keeps its place.\<close>

fun dict_set :: "pydict \<Rightarrow> key \<Rightarrow> pyval \<Rightarrow> pydict" where
  "dict_set [] k v = [(k, v)]"
| "dict_set ((k', v') # d) k v =
     (if k' = k then (k, v) # d else (k', v') # dict_set d k v)"

text \<open>\<^verbatim>\<open>d.get(k)\<close>: the value, or \<^verbatim>\<open>None\<close> when the key is absent.\<close>

definition dict_get :: "pydict \<Rightarrow> key \<Rightarrow> pyval" where
  "dict_get d k = (case map_of d k of None \<Rightarrow> NoneVal | Some v \<Rightarrow> v)"

text \<open>\<^verbatim>\<open>d[k]\<close>: raises \<^verbatim>\<open>KeyError\<close> when the key is absent.\<close>

definition dict_item :: "pydict \<Rightarrow> key \<Rightarrow> exn + pyval" where
  "dict_item d k = (case map_of d k of None \<Rightarrow> Inl KeyError | Some v \<Rightarrow> Inr v)"

definition dict_keys :: "pydict \<Rightarrow> key list" where
  "dict_keys d = map fst d"

text \<open>Truth value of a Python object in an \<^verbatim>\<open>if\<close>.\<close>

fun truthy :: "pyval \<Rightarrow> bool" where
  "truthy (Str s) = (s \<noteq> [])"
| "truthy NoneVal = False"
| "truthy (StrList l) = (l \<noteq> [])"

subsection \<open>\<^verbatim>\<open>str()\<close> and \<^verbatim>\<open>repr()\<close>\<close>

definition hex_digit :: "nat \<Rightarrow> char" where
  "hex_digit n = ''0123456789abcdef'' ! (n mod 16)"

definition printable :: "char \<Rightarrow> bool" where
  "printable c = (let n = of_char c :: nat in
     (32 \<le> n \<and> n < 127) \<or> (161 \<le> n \<and> n \<noteq> 173))"

fun repr_char :: "char \<Rightarrow> char \<Rightarrow> string" where
  "repr_char q c =
     (if c = q \<or> c = BACKSLASH then [BACKSLASH, c]
      else if c = CHR 0x09 then [BACKSLASH, CHR ''t'']
      else if c = LF then [BACKSLASH, CHR ''n'']
      else if c = CR then [BACKSLASH, CHR ''r'']
      else if printable c then [c]
      else [BACKSLASH, CHR ''x'', hex_digit (of_char c div 16), hex_digit (of_char c)])"

definition repr_str :: "string \<Rightarrow> string" where
  "repr_str s =
     (let q = (if SQUOTE \<in> set s \<and> DQUOTE \<notin> set s then DQUOTE else SQUOTE)
      in [q] @ concat (map (repr_char q) s) @ [q])"

fun join :: "string \<Rightarrow> string list \<Rightarrow> string" where
  "join sep [] = []"
| "join sep [x] = x"
| "join sep (x # y # ys) = x @ sep @ join sep (y # ys)"

definition repr_list :: "string list \<Rightarrow> string" where
  "repr_list l = ''['' @ join '', '' (map repr_str l) @ '']''"

text \<open>What an f-string or \<^verbatim>\<open>str()\<close> makes of a value.\<close>

fun py_str :: "pyval \<Rightarrow> string" where
  "py_str (Str s) = s"
| "py_str NoneVal = ''None''"
| "py_str (StrList l) = repr_list l"

text \<open>
  \<^verbatim>\<open>s.replace(old, new)\<close> for a one-character \<^verbatim>\<open>old\<close>, the only use the script makes
  of it; \<^verbatim>\<open>None\<close> and lists have no such method.
\<close>

definition str_replace :: "string \<Rightarrow> char \<Rightarrow> string \<Rightarrow> string" where
  "str_replace s old new = concat (map (\<lambda>c. if c = old then new else [c]) s)"

fun replace_method :: "pyval \<Rightarrow> char \<Rightarrow> string \<Rightarrow> exn + string" where
  "replace_method (Str s) old new = Inr (str_replace s old new)"
| "replace_method NoneVal old new = Inl AttributeError"
| "replace_method (StrList l) old new = Inl AttributeError"

text \<open>\<^verbatim>\<open>x[:40]\<close>, then formatted: \<^verbatim>\<open>None\<close> is not subscriptable.\<close>

fun slice40 :: "pyval \<Rightarrow> exn + string" where
  "slice40 (Str s) = Inr (take 40 s)"
| "slice40 NoneVal = Inl TypeError"
| "slice40 (StrList l) = Inr (repr_list (take 40 l))"

section \<open>The \<^verbatim>\<open>csv\<close> module, dialect \<^verbatim>\<open>excel\<close>\<close>

subsection \<open>Text files\<close>

text \<open>
  \<^verbatim>\<open>open(path, 'r')\<close> reads with universal newlines: \<^verbatim>\<open>\r\n\<close> and \<^verbatim>\<open>\r\<close> become
  \<^verbatim>\<open>\n\<close>, and iterating the file yields the lines with their terminator.
\<close>

fun translate_newlines :: "string \<Rightarrow> string" where
  "translate_newlines [] = []"
| "translate_newlines [c] = (if c = CR then [LF] else [c])"
| "translate_newlines (c # d # ds) =
     (if c = CR \<and> d = LF then LF # translate_newlines ds
      else if c = CR then LF # translate_newlines (d # ds)
      else c # translate_newlines (d # ds))"

fun split_lines :: "string \<Rightarrow> string \<Rightarrow> string list" where
  "split_lines cur [] = (if cur = [] then [] else [cur])"
| "split_lines cur (c # cs) =
     (if c = LF then (cur @ [c]) # split_lines [] cs else split_lines (cur @ [c]) cs)"

definition text_lines :: "string \<Rightarrow> string list" where
  "text_lines content = split_lines [] (translate_newlines content)"

subsection \<open>The reader\<close>

text \<open>
  The reader's state machine with delimiter \<^verbatim>\<open>,\<close>, quote character \<^verbatim>\<open>"\<close>, doubled quotes,
  no escape character and \<^verbatim>\<open>strict\<close> off. The three states that only an escape character
  reaches are left out. A character is \<open>Some c\<close>, the end of a line \<open>None\<close>.
\<close>

datatype parser_state =
  START_RECORD | START_FIELD | IN_FIELD | IN_QUOTED_FIELD | QUOTE_IN_QUOTED_FIELD | EAT_CRNL

record reader =
  state :: parser_state
  field_buf :: string
  rec_fields :: "string list"

definition field_limit :: nat where
  "field_limit = 131072"

definition parse_reset :: reader where
  "parse_reset = \<lparr>state = START_RECORD, field_buf = [], rec_fields = []\<rparr>"

definition parse_save_field :: "reader \<Rightarrow> reader" where
  "parse_save_field r = r\<lparr>rec_fields := rec_fields r @ [field_buf r], field_buf := []\<rparr>"

definition parse_add_char :: "reader \<Rightarrow> char \<Rightarrow> exn + reader" where
  "parse_add_char r c =
     (if field_limit \<le> length (field_buf r) then Inl CsvError
      else Inr (r\<lparr>field_buf := field_buf r @ [c]\<rparr>))"

definition is_newline :: "char option \<Rightarrow> bool" where
  "is_newline c = (c = Some LF \<or> c = Some CR)"

definition start_field :: "reader \<Rightarrow> char option \<Rightarrow> exn + reader" where
  "start_field r c =
     (case c of
        None \<Rightarrow> Inr ((parse_save_field r)\<lparr>state := START_RECORD\<rparr>)
      | Some ch \<Rightarrow>
          if ch = LF \<or> ch = CR then Inr ((parse_save_field r)\<lparr>state := EAT_CRNL\<rparr>)
          else if ch = DQUOTE then Inr (r\<lparr>state := IN_QUOTED_FIELD\<rparr>)
          else if ch = COMMA then Inr (parse_save_field r)
          else (case parse_add_char r ch of
                  Inl e \<Rightarrow> Inl e
                | Inr r' \<Rightarrow> Inr (r'\<lparr>state := IN_FIELD\<rparr>)))"

fun parse_process_char :: "reader \<Rightarrow> char option \<Rightarrow> exn + reader" where
  "parse_process_char r c =
     (case state r of
        START_RECORD \<Rightarrow>
          (if c = None then Inr r
           else if is_newline c then Inr (r\<lparr>state := EAT_CRNL\<rparr>)
           else start_field (r\<lparr>state := START_FIELD\<rparr>) c)
      | START_FIELD \<Rightarrow> start_field r c
      | IN_FIELD \<Rightarrow>
          (case c of
             None \<Rightarrow> Inr ((parse_save_field r)\<lparr>state := START_RECORD\<rparr>)
           | Some ch \<Rightarrow>
               if ch = LF \<or> ch = CR then Inr ((parse_save_field r)\<lparr>state := EAT_CRNL\<rparr>)
               else if ch = COMMA then Inr ((parse_save_field r)\<lparr>state := START_FIELD\<rparr>)
               else parse_add_char r ch)
      | IN_QUOTED_FIELD \<Rightarrow>
          (case c of
             None \<Rightarrow> Inr r
           | Some ch \<Rightarrow>
               if ch = DQUOTE then Inr (r\<lparr>state := QUOTE_IN_QUOTED_FIELD\<rparr>)
               else parse_add_char r ch)
      | QUOTE_IN_QUOTED_FIELD \<Rightarrow>
          (case c of
             None \<Rightarrow> Inr ((parse_save_field r)\<lparr>state := START_RECORD\<rparr>)
           | Some ch \<Rightarrow>
               if ch = DQUOTE then
                 (case parse_add_char r ch of
                    Inl e \<Rightarrow> Inl e
                  | Inr r' \<Rightarrow> Inr (r'\<lparr>state := IN_QUOTED_FIELD\<rparr>))
               else if ch = COMMA then Inr ((parse_save_field r)\<lparr>state := START_FIELD\<rparr>)
               else if ch = LF \<or> ch = CR then Inr ((parse_save_field r)\<lparr>state := EAT_CRNL\<rparr>)
               else (case parse_add_char r ch of
                       Inl e \<Rightarrow> Inl e
                     | Inr r' \<Rightarrow> Inr (r'\<lparr>state := IN_FIELD\<rparr>)))
      | EAT_CRNL \<Rightarrow>
          (if c = None then Inr (r\<lparr>state := START_RECORD\<rparr>)
           else if is_newline c then Inr r
           else Inl CsvError))"

text \<open>One line of input, character by character.\<close>

fun feed_line :: "reader \<Rightarrow> string \<Rightarrow> exn + reader" where
  "feed_line r [] = Inr r"
| "feed_line r (c # cs) =
     (case parse_process_char r (Some c) of
        Inl e \<Rightarrow> Inl e
      | Inr r' \<Rightarrow> feed_line r' cs)"

text \<open>
  All the rows of the reader, as \<^verbatim>\<open>list()\<close> collects them: a record ends when the state
  is back at \<open>START_RECORD\<close> after a line; input that ends inside a quoted field gives
  the record read so far; an error anywhere is the error of the whole.
\<close>

fun reader_rows :: "reader \<Rightarrow> string list \<Rightarrow> exn + string list list" where
  "reader_rows r [] =
     (if field_buf r \<noteq> [] \<or> state r = IN_QUOTED_FIELD
      then Inr [rec_fields (parse_save_field r)] else Inr [])"
| "reader_rows r (l # ls) =
     (case feed_line r l of
        Inl e \<Rightarrow> Inl e
      | Inr r1 \<Rightarrow>
          (case parse_process_char r1 None of
             Inl e \<Rightarrow> Inl e
           | Inr r2 \<Rightarrow>
               if state r2 = START_RECORD then
                 (case reader_rows parse_reset ls of
                    Inl e \<Rightarrow> Inl e
                  | Inr rows \<Rightarrow> Inr (rec_fields r2 # rows))
               else reader_rows r2 ls))"

subsection \<open>\<^verbatim>\<open>DictReader\<close>\<close>

text \<open>
  The first row is the field names. Each later row that is not empty becomes
  \<^verbatim>\<open>dict(zip(fieldnames, row))\<close>; a long row stores its surplus under \<^verbatim>\<open>None\<close>, a short
  row gets \<^verbatim>\<open>None\<close> for the names it lacks.
\<close>

definition dict_of_zip :: "(string \<times> string) list \<Rightarrow> pydict" where
  "dict_of_zip kvs = fold (\<lambda>(k, v) d. dict_set d (Some k) (Str v)) kvs []"

definition make_row_dict :: "string list \<Rightarrow> string list \<Rightarrow> pydict" where
  "make_row_dict fieldnames row =
     (let d = dict_of_zip (zip fieldnames row);
          lf = length fieldnames;
          lr = length row
      in if lf < lr then dict_set d None (StrList (drop lf row))
         else if lr < lf then fold (\<lambda>k d'. dict_set d' (Some k) NoneVal) (drop lr fieldnames) d
         else d)"

definition DictReader_list :: "string list \<Rightarrow> exn + pydict list" where
  "DictReader_list lines =
     (case reader_rows parse_reset lines of
        Inl e \<Rightarrow> Inl e
      | Inr [] \<Rightarrow> Inr []
      | Inr (fieldnames # rows) \<Rightarrow>
          Inr (map (make_row_dict fieldnames) (filter (\<lambda>row. row \<noteq> []) rows)))"

subsection \<open>The writer and \<^verbatim>\<open>DictWriter\<close>\<close>

text \<open>
  Minimal quoting: a field is quoted when it holds the delimiter, the quote character
  or a character of the line terminator; quotes inside are doubled. A record of one
  empty field is written as \<^verbatim>\<open>""\<close>. The line terminator is \<^verbatim>\<open>\r\n\<close>.
\<close>

definition needs_quote :: "char \<Rightarrow> bool" where
  "needs_quote c = (c = COMMA \<or> c = DQUOTE \<or> c = CR \<or> c = LF)"

definition join_append :: "string \<Rightarrow> string" where
  "join_append s =
     (if list_ex needs_quote s
      then [DQUOTE] @ concat (map (\<lambda>c. if c = DQUOTE then [c, c] else [c]) s) @ [DQUOTE]
      else s)"

fun field_text :: "pyval \<Rightarrow> string" where
  "field_text (Str s) = s"
| "field_text NoneVal = []"
| "field_text (StrList l) = repr_list l"

definition writerow :: "pyval list \<Rightarrow> string" where
  "writerow row =
     (let rec = join [COMMA] (map (\<lambda>v. join_append (field_text v)) row)
      in (if row \<noteq> [] \<and> rec = [] then [DQUOTE, DQUOTE] else rec) @ [CR, LF])"

text \<open>
  \<^verbatim>\<open>_dict_to_list\<close>: a key of the row that is not a field name raises \<^verbatim>\<open>ValueError\<close>
  (\<^verbatim>\<open>extrasaction='raise'\<close>); a field name the row lacks is written as the empty string.
\<close>

definition wrong_fields :: "key list \<Rightarrow> pydict \<Rightarrow> key list" where
  "wrong_fields fieldnames rowdict = filter (\<lambda>k. k \<notin> set fieldnames) (dict_keys rowdict)"

definition dict_to_list :: "key list \<Rightarrow> pydict \<Rightarrow> pyval list" where
  "dict_to_list fieldnames rowdict =
     map (\<lambda>k. case map_of rowdict k of None \<Rightarrow> Str [] | Some v \<Rightarrow> v) fieldnames"

definition header_row :: "key list \<Rightarrow> pyval list" where
  "header_row fieldnames = map (\<lambda>k. case k of None \<Rightarrow> NoneVal | Some s \<Rightarrow> Str s) fieldnames"

text \<open>
  \<^verbatim>\<open>writerows\<close> writes row after row to the open file; a row that raises leaves what
  was written before it.
\<close>

fun writerows :: "key list \<Rightarrow> pydict list \<Rightarrow> string \<Rightarrow> string \<times> exn option" where
  "writerows fieldnames [] out = (out, None)"
| "writerows fieldnames (rowdict # rest) out =
     (if wrong_fields fieldnames rowdict \<noteq> [] then (out, Some ValueError)
      else writerows fieldnames rest (out @ writerow (dict_to_list fieldnames rowdict)))"

section \<open>The script\<close>

definition read_csv_data :: "path \<Rightarrow> filesystem \<Rightarrow> exn + pydict list" where
  "read_csv_data file_path fs =
     (case fs file_path of
        None \<Rightarrow> Inl FileNotFoundError
      | Some Undecodable \<Rightarrow> Inl UnicodeDecodeError
      | Some (Text content) \<Rightarrow> DictReader_list (text_lines content))"

text \<open>
  \<^verbatim>\<open>open(path, 'w', newline='')\<close> empties the file at once and writes the text as it is;
  leaving the \<^verbatim>\<open>with\<close> block closes it, also when a row raised, so the file holds whatever
  was written until then.
\<close>

definition update_csv_data ::
  "path \<Rightarrow> pydict list \<Rightarrow> key list \<Rightarrow> filesystem \<Rightarrow> filesystem \<times> exn option" where
  "update_csv_data file_path data fieldnames fs =
     (case writerows fieldnames data (writerow (header_row fieldnames)) of
        (out, e) \<Rightarrow> (fs(file_path \<mapsto> Text out), e))"

subsection \<open>Module globals\<close>

text \<open>
  The module reads its configuration once, when it is loaded; the functions see it as
  globals. \<^verbatim>\<open>os.environ.get\<close> gives \<^verbatim>\<open>None\<close> for a variable that is not set.
\<close>

record globals =
  JIRA_SERVER :: string
  JIRA_USERNAME :: string
  JIRA_API_TOKEN :: "string option"
  EPICS_CSV_PATH :: path
  BACKLOG_CSV_PATH :: path

definition load_module :: "(string \<rightharpoonup> string) \<Rightarrow> globals" where
  "load_module environ =
     \<lparr>JIRA_SERVER = ''https://your-domain.atlassian.net'',
      JIRA_USERNAME = ''your-email@example.com'',
      JIRA_API_TOKEN = environ ''JIRA_API_TOKEN'',
      EPICS_CSV_PATH = ''pm/epics.csv'',
      BACKLOG_CSV_PATH = ''pm/sprint_backlog.csv''\<rparr>"

subsection \<open>Output\<close>

text \<open>
  One constructor for each \<^verbatim>\<open>print\<close> of the script, holding the values its f-string
  formats; \<open>render\<close> is the text printed.
\<close>

datatype message =
    Starting_Epic_Sync
  | Skipping_Epic string string
  | Found_new_Epic string
  | Jira_Epic_key bool string
  | Updated_epics_csv
  | Epic_Sync_Complete
  | Starting_Backlog_Sync
  | Skipping_Subtask string string
  | Found_new_backlog_item string
  | Jira_Issue_key bool string
  | Updated_backlog_csv
  | Backlog_Sync_Complete
  | Starting_process
  | Note_placeholder
  | Note_run_for_real
  | Sync_process_finished

definition create_prefix :: "bool \<Rightarrow> string" where
  "create_prefix dry_run = (if dry_run then ''[Dry Run] Would create'' else ''Successfully created'')"

fun render :: "message \<Rightarrow> string" where
  "render Starting_Epic_Sync = ''--- Starting Epic Sync ---''"
| "render (Skipping_Epic title jid) =
     ''Skipping Epic '' @ [SQUOTE] @ title @ [SQUOTE] @ '' - already has Jira ID: '' @ jid"
| "render (Found_new_Epic title) = ''Found new Epic to sync: '' @ [SQUOTE] @ title @ [SQUOTE]"
| "render (Jira_Epic_key dry_run k) =
     ''  - '' @ create_prefix dry_run @ '' Jira Epic with key: '' @ k"
| "render Updated_epics_csv = ''Successfully updated epics.csv with new Jira IDs.''"
| "render Epic_Sync_Complete = ''--- Epic Sync Complete ---'' @ [LF]"
| "render Starting_Backlog_Sync = ''--- Starting Sprint Backlog Sync ---''"
| "render (Skipping_Subtask d jid) =
     ''Skipping Subtask '' @ [SQUOTE] @ d @ ''...'' @ [SQUOTE] @ '' - already has Jira ID: '' @ jid"
| "render (Found_new_backlog_item d) =
     ''Found new backlog item to sync: '' @ [SQUOTE] @ d @ ''...'' @ [SQUOTE]"
| "render (Jira_Issue_key dry_run k) =
     ''  - '' @ create_prefix dry_run @ '' Jira Issue with key: '' @ k"
| "render Updated_backlog_csv = ''Successfully updated sprint_backlog.csv with new Jira IDs.''"
| "render Backlog_Sync_Complete = ''--- Sprint Backlog Sync Complete ---''"
| "render Starting_process = ''Starting Jira sync process (Dry Run Mode)...''"
| "render Note_placeholder = ''NOTE: This script is a placeholder and will not make real changes.''"
| "render Note_run_for_real =
     ''To run for real, you would need to implement the Jira API calls and run with a different flag.''
     @ [LF]"
| "render Sync_process_finished = [LF] @ ''Sync process finished.''"

subsection \<open>\<^verbatim>\<open>sync_epics_to_jira\<close>\<close>

text \<open>
  One turn of the loop over \<^verbatim>\<open>epics_data\<close>: what it prints, the record after it, and the
  exception it raised, if any. The simulated key stands where the call to Jira would be.
\<close>

definition sync_epic :: "bool \<Rightarrow> pydict \<Rightarrow> message list \<times> pydict \<times> exn option" where
  "sync_epic dry_run epic =
     (if truthy (dict_get epic (Some ''JiraTicketID'')) then
        (case dict_item epic (Some ''Title'') of
           Inl e \<Rightarrow> ([], epic, Some e)
         | Inr title \<Rightarrow>
             (case dict_item epic (Some ''JiraTicketID'') of
                Inl e \<Rightarrow> ([], epic, Some e)
              | Inr jid \<Rightarrow> ([Skipping_Epic (py_str title) (py_str jid)], epic, None)))
      else
        (case dict_item epic (Some ''Title'') of
           Inl e \<Rightarrow> ([], epic, Some e)
         | Inr title \<Rightarrow>
             (case dict_item epic (Some ''EpicID'') of
                Inl e \<Rightarrow> ([Found_new_Epic (py_str title)], epic, Some e)
              | Inr eid \<Rightarrow>
                  (case replace_method eid (CHR ''E'') ''10'' of
                     Inl e \<Rightarrow> ([Found_new_Epic (py_str title)], epic, Some e)
                   | Inr s \<Rightarrow>
                       (let new_jira_key = ''FER-'' @ s
                        in ([Found_new_Epic (py_str title), Jira_Epic_key dry_run new_jira_key],
                            dict_set epic (Some ''JiraTicketID'') (Str new_jira_key),
                            None))))))"

fun epics_loop :: "bool \<Rightarrow> pydict list \<Rightarrow> message list \<times> pydict list \<times> exn option" where
  "epics_loop dry_run [] = ([], [], None)"
| "epics_loop dry_run (epic # rest) =
     (case sync_epic dry_run epic of
        (out, epic', Some e) \<Rightarrow> (out, epic' # rest, Some e)
      | (out, epic', None) \<Rightarrow>
          (case epics_loop dry_run rest of
             (out', rest', e) \<Rightarrow> (out @ out', epic' # rest', e)))"

text \<open>A run: what was printed, the file system after it, the exception that ended it.\<close>

record run =
  stdout :: "message list"
  files :: filesystem
  raised :: "exn option"

definition sync_epics_to_jira :: "globals \<Rightarrow> bool \<Rightarrow> filesystem \<Rightarrow> run" where
  "sync_epics_to_jira g dry_run fs =
     (case read_csv_data (EPICS_CSV_PATH g) fs of
        Inl e \<Rightarrow> \<lparr>stdout = [Starting_Epic_Sync], files = fs, raised = Some e\<rparr>
      | Inr epics_data \<Rightarrow>
          (case epics_loop dry_run epics_data of
             (out, epics_data', Some e) \<Rightarrow>
               \<lparr>stdout = Starting_Epic_Sync # out, files = fs, raised = Some e\<rparr>
           | (out, epics_data', None) \<Rightarrow>
               if \<not> dry_run then
                 (case epics_data' of
                    [] \<Rightarrow> \<lparr>stdout = Starting_Epic_Sync # out, files = fs, raised = Some IndexError\<rparr>
                  | first # _ \<Rightarrow>
                      (case update_csv_data (EPICS_CSV_PATH g) epics_data' (dict_keys first) fs of
                         (fs', Some e) \<Rightarrow>
                           \<lparr>stdout = Starting_Epic_Sync # out, files = fs', raised = Some e\<rparr>
                       | (fs', None) \<Rightarrow>
                           \<lparr>stdout = Starting_Epic_Sync # out @ [Updated_epics_csv, Epic_Sync_Complete],
                            files = fs', raised = None\<rparr>))
               else \<lparr>stdout = Starting_Epic_Sync # out @ [Epic_Sync_Complete],
                     files = fs, raised = None\<rparr>))"

subsection \<open>\<^verbatim>\<open>sync_backlog_to_jira\<close>\<close>

definition sync_item :: "bool \<Rightarrow> pydict \<Rightarrow> message list \<times> pydict \<times> exn option" where
  "sync_item dry_run item =
     (if truthy (dict_get item (Some ''JiraTicketID'')) then
        (case dict_item item (Some ''SubtaskDescription'') of
           Inl e \<Rightarrow> ([], item, Some e)
         | Inr d \<Rightarrow>
             (case slice40 d of
                Inl e \<Rightarrow> ([], item, Some e)
              | Inr d40 \<Rightarrow>
                  (case dict_item item (Some ''JiraTicketID'') of
                     Inl e \<Rightarrow> ([], item, Some e)
                   | Inr jid \<Rightarrow> ([Skipping_Subtask d40 (py_str jid)], item, None))))
      else
        (case dict_item item (Some ''SubtaskDescription'') of
           Inl e \<Rightarrow> ([], item, Some e)
         | Inr d \<Rightarrow>
             (case slice40 d of
                Inl e \<Rightarrow> ([], item, Some e)
              | Inr d40 \<Rightarrow>
                  (case dict_item item (Some ''SubtaskID'') of
                     Inl e \<Rightarrow> ([Found_new_backlog_item d40], item, Some e)
                   | Inr sid \<Rightarrow>
                       (case replace_method sid (CHR ''T'') [] of
                          Inl e \<Rightarrow> ([Found_new_backlog_item d40], item, Some e)
                        | Inr s \<Rightarrow>
                            (let new_jira_key = ''FER-'' @ str_replace s (CHR ''.'') ''0''
                             in ([Found_new_backlog_item d40, Jira_Issue_key dry_run new_jira_key],
                                 dict_set item (Some ''JiraTicketID'') (Str new_jira_key),
                                 None)))))))"

fun backlog_loop :: "bool \<Rightarrow> pydict list \<Rightarrow> message list \<times> pydict list \<times> exn option" where
  "backlog_loop dry_run [] = ([], [], None)"
| "backlog_loop dry_run (item # rest) =
     (case sync_item dry_run item of
        (out, item', Some e) \<Rightarrow> (out, item' # rest, Some e)
      | (out, item', None) \<Rightarrow>
          (case backlog_loop dry_run rest of
             (out', rest', e) \<Rightarrow> (out @ out', item' # rest', e)))"

definition sync_backlog_to_jira :: "globals \<Rightarrow> bool \<Rightarrow> filesystem \<Rightarrow> run" where
  "sync_backlog_to_jira g dry_run fs =
     (case read_csv_data (BACKLOG_CSV_PATH g) fs of
        Inl e \<Rightarrow> \<lparr>stdout = [Starting_Backlog_Sync], files = fs, raised = Some e\<rparr>
      | Inr backlog_data \<Rightarrow>
          (case backlog_loop dry_run backlog_data of
             (out, backlog_data', Some e) \<Rightarrow>
               \<lparr>stdout = Starting_Backlog_Sync # out, files = fs, raised = Some e\<rparr>
           | (out, backlog_data', None) \<Rightarrow>
               if \<not> dry_run then
                 (case backlog_data' of
                    [] \<Rightarrow> \<lparr>stdout = Starting_Backlog_Sync # out, files = fs, raised = Some IndexError\<rparr>
                  | first # _ \<Rightarrow>
                      (case update_csv_data (BACKLOG_CSV_PATH g) backlog_data' (dict_keys first) fs of
                         (fs', Some e) \<Rightarrow>
                           \<lparr>stdout = Starting_Backlog_Sync # out, files = fs', raised = Some e\<rparr>
                       | (fs', None) \<Rightarrow>
                           \<lparr>stdout = Starting_Backlog_Sync # out @ [Updated_backlog_csv, Backlog_Sync_Complete],
                            files = fs', raised = None\<rparr>))
               else \<lparr>stdout = Starting_Backlog_Sync # out @ [Backlog_Sync_Complete],
                     files = fs, raised = None\<rparr>))"

subsection \<open>The script run as a program\<close>

definition main :: "(string \<rightharpoonup> string) \<Rightarrow> filesystem \<Rightarrow> run" where
  "main environ fs =
     (let g = load_module environ;
          banner = [Starting_process, Note_placeholder, Note_run_for_real];
          r1 = sync_epics_to_jira g True fs
      in case raised r1 of
           Some e \<Rightarrow> r1\<lparr>stdout := banner @ stdout r1\<rparr>
         | None \<Rightarrow>
             (let r2 = sync_backlog_to_jira g True (files r1)
              in case raised r2 of
                   Some e \<Rightarrow> r2\<lparr>stdout := banner @ stdout r1 @ stdout r2\<rparr>
                 | None \<Rightarrow>
                     r2\<lparr>stdout := banner @ stdout r1 @ stdout r2 @ [Sync_process_finished]\<rparr>))"

subsection \<open>Outcomes\<close>

text \<open>
  The specification's outcome of a record, read off what the loop prints for it: the
  skip message is \<open>Skipped\<close> with the identifier found, the key message is \<open>Created\<close>
  with the new key. The script has no message for a failed creation.
\<close>

datatype SyncOutcome = Skipped string | Created string

fun outcome_of :: "message \<Rightarrow> SyncOutcome option" where
  "outcome_of (Skipping_Epic title jid) = Some (Skipped jid)"
| "outcome_of (Skipping_Subtask d jid) = Some (Skipped jid)"
| "outcome_of (Jira_Epic_key dry_run k) = Some (Created k)"
| "outcome_of (Jira_Issue_key dry_run k) = Some (Created k)"
| "outcome_of _ = None"

definition outcomes :: "message list \<Rightarrow> SyncOutcome list" where
  "outcomes out = List.map_filter outcome_of out"



subsection \<open>Collections the loops run through\<close>



section \<open>Sources in the writer's own form\<close>

text \<open>
  The text the writer produces for a row of strings, without its line end, and the text
  of a list of rows with a given line end. A field can be stored when it holds no \<^verbatim>\<open>\r\<close>
  (reading turns it into \<^verbatim>\<open>\n\<close>) and the reader accepts its length.
\<close>

definition record_text :: "string list \<Rightarrow> string" where
  "record_text row =
     (let rec = join [COMMA] (map join_append row)
      in if row \<noteq> [] \<and> rec = [] then [DQUOTE, DQUOTE] else rec)"

definition csv_text :: "string \<Rightarrow> string list list \<Rightarrow> string" where
  "csv_text eol records = concat (map (\<lambda>row. record_text row @ eol) records)"

definition storable_field :: "string \<Rightarrow> bool" where
  "storable_field f = (\<not> list_ex (\<lambda>c. c = CR) f \<and> length f \<le> field_limit)"

definition storable_row :: "string list \<Rightarrow> bool" where
  "storable_row row = (row \<noteq> [] \<and> list_all storable_field row)"

definition row_dict :: "string list \<Rightarrow> string list \<Rightarrow> pydict" where
  "row_dict fieldnames row = zip (map Some fieldnames) (map Str row)"

text \<open>
  The reader over a whole text in which every line ends with \<^verbatim>\<open>\n\<close>: the end of a line
  follows each \<^verbatim>\<open>\n\<close>, and the end of the text when a line is still open (the flag).
  It gives the rows \<open>reader_rows\<close> gives for the lines of the text.
\<close>

fun stream_rows :: "bool \<Rightarrow> reader \<Rightarrow> string \<Rightarrow> exn + string list list" where
  "stream_rows open_line r [] =
     (if open_line then
        (case parse_process_char r None of
           Inl e \<Rightarrow> Inl e
         | Inr r2 \<Rightarrow>
             if state r2 = START_RECORD then
               (case reader_rows parse_reset [] of
                  Inl e \<Rightarrow> Inl e
                | Inr rows \<Rightarrow> Inr (rec_fields r2 # rows))
             else reader_rows r2 [])
      else reader_rows r [])"
| "stream_rows open_line r (c # s) =
     (case parse_process_char r (Some c) of
        Inl e \<Rightarrow> Inl e
      | Inr r1 \<Rightarrow>
          if c = LF then
            (case parse_process_char r1 None of
               Inl e \<Rightarrow> Inl e
             | Inr r2 \<Rightarrow>
                 if state r2 = START_RECORD then
                   (case stream_rows False parse_reset s of
                      Inl e \<Rightarrow> Inl e
                    | Inr rows \<Rightarrow> Inr (rec_fields r2 # rows))
                 else stream_rows False r2 s)
          else stream_rows True r1 s)"

section \<open>Example files\<close>

text \<open>
  The specification's example: epic E1 without a ticket, epic E2 with ticket FER-10;
  beside it a backlog of one item without a ticket. Lines end in \<^verbatim>\<open>\n\<close>.
\<close>

definition example_epics_csv :: string where
  "example_epics_csv =
     ''EpicID,Title,JiraTicketID'' @ [LF] @ ''E1,Login flow,'' @ [LF] @ ''E2,Billing,FER-10'' @ [LF]"

definition example_backlog_csv :: string where
  "example_backlog_csv =
     ''SubtaskID,SubtaskDescription,JiraTicketID'' @ [LF] @ ''T1.2,Write the parser,'' @ [LF]"

definition example_fs :: filesystem where
  "example_fs =
     [''pm/epics.csv'' \<mapsto> Text example_epics_csv, ''pm/sprint_backlog.csv'' \<mapsto> Text example_backlog_csv]"

definition example_epics :: "pydict list" where
  "example_epics =
     [[(Some ''EpicID'', Str ''E1''), (Some ''Title'', Str ''Login flow''),
       (Some ''JiraTicketID'', Str [])],
      [(Some ''EpicID'', Str ''E2''), (Some ''Title'', Str ''Billing''),
       (Some ''JiraTicketID'', Str ''FER-10'')]]"

definition example_epics_synced :: "pydict list" where
  "example_epics_synced =
     [[(Some ''EpicID'', Str ''E1''), (Some ''Title'', Str ''Login flow''),
       (Some ''JiraTicketID'', Str ''FER-101'')],
      [(Some ''EpicID'', Str ''E2''), (Some ''Title'', Str ''Billing''),
       (Some ''JiraTicketID'', Str ''FER-10'')]]"


definition example_epics_resaved :: string where
  "example_epics_resaved =
     ''EpicID,Title,JiraTicketID'' @ [CR, LF] @ ''E1,Login flow,'' @ [CR, LF] @
     ''E2,Billing,FER-10'' @ [CR, LF]"

definition example_backlog :: "pydict list" where
  "example_backlog =
     [[(Some ''SubtaskID'', Str ''T1.2''), (Some ''SubtaskDescription'', Str ''Write the parser''),
       (Some ''JiraTicketID'', Str [])]]"

definition example_backlog_synced :: "pydict list" where
  "example_backlog_synced =
     [[(Some ''SubtaskID'', Str ''T1.2''), (Some ''SubtaskDescription'', Str ''Write the parser''),
       (Some ''JiraTicketID'', Str ''FER-102'')]]"

text \<open>Files in which every record already has its ticket.\<close>

definition synced_epics_csv :: string where
  "synced_epics_csv = ''EpicID,Title,JiraTicketID'' @ [LF] @ ''E7,Search,FER-999'' @ [LF]"

definition synced_backlog_csv :: string where
  "synced_backlog_csv =
     ''SubtaskID,SubtaskDescription,JiraTicketID'' @ [LF] @ ''T3.1,Ship it,FER-999'' @ [LF]"

definition synced_fs :: filesystem where
  "synced_fs =
     [''pm/epics.csv'' \<mapsto> Text synced_epics_csv, ''pm/sprint_backlog.csv'' \<mapsto> Text synced_backlog_csv]"

definition synced_epics :: "pydict list" where
  "synced_epics =
     [[(Some ''EpicID'', Str ''E7''), (Some ''Title'', Str ''Search''),
       (Some ''JiraTicketID'', Str ''FER-999'')]]"

definition synced_backlog :: "pydict list" where
  "synced_backlog =
     [[(Some ''SubtaskID'', Str ''T3.1''), (Some ''SubtaskDescription'', Str ''Ship it''),
       (Some ''JiraTicketID'', Str ''FER-999'')]]"

definition synced_epics_saved :: string where
  "synced_epics_saved = ''EpicID,Title,JiraTicketID'' @ [CR, LF] @ ''E7,Search,FER-999'' @ [CR, LF]"

definition synced_backlog_saved :: string where
  "synced_backlog_saved =
     ''SubtaskID,SubtaskDescription,JiraTicketID'' @ [CR, LF] @ ''T3.1,Ship it,FER-999'' @ [CR, LF]"

text \<open>A file whose first data row is short and whose second is long, and an empty one.\<close>

definition ragged_csv :: string where
  "ragged_csv =
     ''EpicID,Title,JiraTicketID'' @ [LF] @ ''E1,Login flow'' @ [LF] @
     ''E2,Billing,FER-10,extra'' @ [LF]"

definition ragged_epics :: "pydict list" where
  "ragged_epics =
     [[(Some ''EpicID'', Str ''E1''), (Some ''Title'', Str ''Login flow''),
       (Some ''JiraTicketID'', NoneVal)],
      [(Some ''EpicID'', Str ''E2''), (Some ''Title'', Str ''Billing''),
       (Some ''JiraTicketID'', Str ''FER-10''), (None, StrList [''extra''])]]"

text \<open>A file of synchronised epics whose second row has one field too many.\<close>

definition long_row_csv :: string where
  "long_row_csv =
     ''EpicID,Title,JiraTicketID'' @ [LF] @ ''E1,Login,FER-1'' @ [LF] @
     ''E2,Billing,FER-2,extra'' @ [LF]"

definition long_row_epics :: "pydict list" where
  "long_row_epics =
     [[(Some ''EpicID'', Str ''E1''), (Some ''Title'', Str ''Login''),
       (Some ''JiraTicketID'', Str ''FER-1'')],
      [(Some ''EpicID'', Str ''E2''), (Some ''Title'', Str ''Billing''),
       (Some ''JiraTicketID'', Str ''FER-2''), (None, StrList [''extra''])]]"

definition long_row_saved :: string where
  "long_row_saved = ''EpicID,Title,JiraTicketID'' @ [CR, LF] @ ''E1,Login,FER-1'' @ [CR, LF]"

text \<open>Files without a record: only a header, and nothing at all.\<close>

definition header_only_fs :: filesystem where
  "header_only_fs =
     [''pm/epics.csv'' \<mapsto> Text (''EpicID,Title,JiraTicketID'' @ [LF]), ''pm/sprint_backlog.csv'' \<mapsto> Text []]"

text \<open>Further file systems and the example collection as field names and rows.\<close>

definition empty_file_fs :: filesystem where
  "empty_file_fs = [''pm/epics.csv'' \<mapsto> Text []]"

definition no_csv_fs :: filesystem where
  "no_csv_fs = [''README.md'' \<mapsto> Text ''notes'']"

definition long_row_fs :: filesystem where
  "long_row_fs = [''pm/epics.csv'' \<mapsto> Text long_row_csv]"

definition example_keys :: "key list" where
  "example_keys = [Some ''EpicID'', Some ''Title'', Some ''JiraTicketID'']"

definition example_fieldnames :: "string list" where
  "example_fieldnames = [''EpicID'', ''Title'', ''JiraTicketID'']"

definition example_rows :: "string list list" where
  "example_rows = [[''E1'', ''Login flow'', []], [''E2'', ''Billing'', ''FER-10'']]"

definition quoted_rows :: "string list list" where
  "quoted_rows =
     [[''E1'', ''Login, '' @ [DQUOTE] @ ''fast'' @ [DQUOTE] @ '' flow'', []],
      [''E2'', ''Bil'' @ [LF] @ ''ling'', ''FER-10'']]"

definition quoted_fs :: filesystem where
  "quoted_fs = [''pm/epics.csv'' \<mapsto> Text (csv_text [CR, LF] (example_fieldnames # quoted_rows))]"

definition quoted_epics :: "pydict list" where
  "quoted_epics =
     [[(Some ''EpicID'', Str ''E1''),
       (Some ''Title'', Str (''Login, '' @ [DQUOTE] @ ''fast'' @ [DQUOTE] @ '' flow'')),
       (Some ''JiraTicketID'', Str [])],
      [(Some ''EpicID'', Str ''E2''), (Some ''Title'', Str (''Bil'' @ [LF] @ ''ling'')),
       (Some ''JiraTicketID'', Str ''FER-10'')]]"

definition ragged_rows :: "string list list" where
  "ragged_rows = [[''E1'', ''Login flow''], [''E2'', ''Billing'', ''FER-10'', ''extra'']]"

definition ragged_fs :: filesystem where
  "ragged_fs = [''pm/epics.csv'' \<mapsto> Text ragged_csv]"





text \<open>A file that is not UTF-8.\<close>

definition undecodable_fs :: filesystem where
  "undecodable_fs = [''pm/epics.csv'' \<mapsto> Undecodable]"

text \<open>
  Sources that load but are not what the writer would write: a field quoted without
  need, two columns of one name, a \<^verbatim>\<open>\r\<close> inside a quoted field.
\<close>

definition needless_quotes_csv :: string where
  "needless_quotes_csv =
     ''EpicID,Title'' @ [CR, LF] @ [DQUOTE] @ ''E1'' @ [DQUOTE] @ '',Login'' @ [CR, LF]"

definition same_names_csv :: string where
  "same_names_csv = ''Title,Title'' @ [CR, LF] @ ''Login,Billing'' @ [CR, LF]"

definition inner_cr_csv :: string where
  "inner_cr_csv =
     ''EpicID,Title'' @ [CR, LF] @ ''E1,'' @ [DQUOTE] @ ''Log'' @ [CR] @ ''in'' @ [DQUOTE] @ [CR, LF]"

text \<open>File systems with one of the two files only.\<close>

definition epics_only_fs :: filesystem where
  "epics_only_fs = [''pm/epics.csv'' \<mapsto> Text synced_epics_csv]"

definition backlog_only_fs :: filesystem where
  "backlog_only_fs = [''pm/sprint_backlog.csv'' \<mapsto> Text []]"

section \<open>Lemmas\<close>

subsection \<open>Dictionaries, the loops and the runs\<close>

lemma map_of_dict_set: "map_of (dict_set d k v) k' = (if k' = k then Some v else map_of d k')"
  by (induction d) auto

lemma dict_get_dict_set: "dict_get (dict_set d k v) k = v"
  by (simp add: dict_get_def map_of_dict_set)


lemma dict_set_fresh: "k \<notin> fst ` set d \<Longrightarrow> dict_set d k v = d @ [(k, v)]"
  by (induction d) auto

lemma outcomes_Nil: "outcomes [] = []"
  by (simp add: outcomes_def)


lemma outcomes_Cons:
  "outcomes (m # ms) = (case outcome_of m of None \<Rightarrow> outcomes ms | Some oc \<Rightarrow> oc # outcomes ms)"
  by (cases "outcome_of m") (simp_all add: outcomes_def)










lemma dry_run_epics: "files (sync_epics_to_jira g True fs) = fs"
  by (simp add: sync_epics_to_jira_def split: sum.splits prod.splits option.splits)

lemma dry_run_backlog: "files (sync_backlog_to_jira g True fs) = fs"
  by (simp add: sync_backlog_to_jira_def split: sum.splits prod.splits option.splits)

lemma sync_epics_commit:
  assumes "read_csv_data (EPICS_CSV_PATH g) fs = Inr data"
    and "epics_loop False data = (out, first # rest, None)"
    and "update_csv_data (EPICS_CSV_PATH g) (first # rest) (dict_keys first) fs = (fs', e)"
  shows "sync_epics_to_jira g False fs =
           \<lparr>stdout = Starting_Epic_Sync # out @
              (case e of None \<Rightarrow> [Updated_epics_csv, Epic_Sync_Complete] | Some x \<Rightarrow> []),
            files = fs', raised = e\<rparr>"
  using assms by (simp add: sync_epics_to_jira_def split: option.splits)

lemma sync_backlog_commit:
  assumes "read_csv_data (BACKLOG_CSV_PATH g) fs = Inr data"
    and "backlog_loop False data = (out, first # rest, None)"
    and "update_csv_data (BACKLOG_CSV_PATH g) (first # rest) (dict_keys first) fs = (fs', e)"
  shows "sync_backlog_to_jira g False fs =
           \<lparr>stdout = Starting_Backlog_Sync # out @
              (case e of None \<Rightarrow> [Updated_backlog_csv, Backlog_Sync_Complete] | Some x \<Rightarrow> []),
            files = fs', raised = e\<rparr>"
  using assms by (simp add: sync_backlog_to_jira_def split: option.splits)

lemma sync_epics_dry:
  assumes "read_csv_data (EPICS_CSV_PATH g) fs = Inr data"
    and "epics_loop True data = (out, data', None)"
  shows "sync_epics_to_jira g True fs =
           \<lparr>stdout = Starting_Epic_Sync # out @ [Epic_Sync_Complete], files = fs, raised = None\<rparr>"
  using assms by (simp add: sync_epics_to_jira_def)

lemma sync_backlog_dry:
  assumes "read_csv_data (BACKLOG_CSV_PATH g) fs = Inr data"
    and "backlog_loop True data = (out, data', None)"
  shows "sync_backlog_to_jira g True fs =
           \<lparr>stdout = Starting_Backlog_Sync # out @ [Backlog_Sync_Complete], files = fs, raised = None\<rparr>"
  using assms by (simp add: sync_backlog_to_jira_def)

lemma sync_epics_token:
  "sync_epics_to_jira (g\<lparr>JIRA_API_TOKEN := t\<rparr>) dry_run fs = sync_epics_to_jira g dry_run fs"
proof -
  have p: "EPICS_CSV_PATH (g\<lparr>JIRA_API_TOKEN := t\<rparr>) = EPICS_CSV_PATH g" by simp
  show ?thesis unfolding sync_epics_to_jira_def p by (rule refl)
qed

lemma sync_backlog_token:
  "sync_backlog_to_jira (g\<lparr>JIRA_API_TOKEN := t\<rparr>) dry_run fs = sync_backlog_to_jira g dry_run fs"
proof -
  have p: "BACKLOG_CSV_PATH (g\<lparr>JIRA_API_TOKEN := t\<rparr>) = BACKLOG_CSV_PATH g" by simp
  show ?thesis unfolding sync_backlog_to_jira_def p by (rule refl)
qed

lemma load_module_token:
  "load_module (environ(''JIRA_API_TOKEN'' := t)) = (load_module environ)\<lparr>JIRA_API_TOKEN := t\<rparr>"
  by (simp add: load_module_def)

lemma main_token: "main (environ(''JIRA_API_TOKEN'' := t)) fs = main environ fs"
  unfolding main_def Let_def load_module_token sync_epics_token sync_backlog_token
  by (rule refl)

lemma writerows_takeWhile:
  "writerows fns data out =
     (out @ concat (map (\<lambda>d. writerow (dict_to_list fns d))
                        (takeWhile (\<lambda>d. wrong_fields fns d = []) data)),
      if list_all (\<lambda>d. wrong_fields fns d = []) data then None else Some ValueError)"
  by (induction data arbitrary: out) auto

lemma fold_dict_set_fresh:
  "distinct (map fst kvs) \<Longrightarrow> Some ` fst ` set kvs \<inter> fst ` set d = {} \<Longrightarrow>
   fold (\<lambda>(k, v) d. dict_set d (Some k) (Str v)) kvs d = d @ map (\<lambda>(k, v). (Some k, Str v)) kvs"
proof (induction kvs arbitrary: d)
  case Nil show ?case by simp
next
  case (Cons kv kvs)
  obtain k v where kv: "kv = (k, v)" by (cases kv)
  from Cons.prems kv have f: "Some k \<notin> fst ` set d" by auto
  from Cons.prems kv
  have "distinct (map fst kvs)" "Some ` fst ` set kvs \<inter> fst ` set (d @ [(Some k, Str v)]) = {}"
    by (auto simp: image_iff)
  from Cons.IH [OF this] kv f show ?case by (simp add: dict_set_fresh)
qed

lemma make_row_dict_full:
  assumes "distinct fieldnames" "length row = length fieldnames"
  shows "make_row_dict fieldnames row = row_dict fieldnames row"
proof -
  have d: "distinct (map fst (zip fieldnames row))" using assms by (simp add: map_fst_zip)
  have "dict_of_zip (zip fieldnames row) = map (\<lambda>(k, v). (Some k, Str v)) (zip fieldnames row)"
    using fold_dict_set_fresh [OF d, of "[]"] by (simp add: dict_of_zip_def)
  also have "\<dots> = row_dict fieldnames row"
    by (simp add: row_dict_def zip_map_map)
  finally show ?thesis using assms by (simp add: make_row_dict_def)
qed

lemma dict_keys_row_dict:
  "length row = length fieldnames \<Longrightarrow> dict_keys (row_dict fieldnames row) = map Some fieldnames"
  by (simp add: dict_keys_def row_dict_def)

lemma wrong_fields_row_dict:
  "length row = length fieldnames \<Longrightarrow> wrong_fields (map Some fieldnames) (row_dict fieldnames row) = []"
  by (simp add: wrong_fields_def dict_keys_row_dict)

lemma dict_to_list_row_dict:
  assumes "distinct fieldnames" "length row = length fieldnames"
  shows "dict_to_list (map Some fieldnames) (row_dict fieldnames row) = map Str row"
proof (rule nth_equalityI)
  show "length (dict_to_list (map Some fieldnames) (row_dict fieldnames row)) = length (map Str row)"
    using assms by (simp add: dict_to_list_def)
next
  fix i assume "i < length (dict_to_list (map Some fieldnames) (row_dict fieldnames row))"
  then have i: "i < length fieldnames" by (simp add: dict_to_list_def)
  have "distinct (map Some fieldnames)" using assms by (simp add: distinct_map)
  with assms i
  have "map_of (zip (map Some fieldnames) (map Str row)) (map Some fieldnames ! i) = Some (map Str row ! i)"
    by (intro map_of_zip_nth) auto
  with i assms show "dict_to_list (map Some fieldnames) (row_dict fieldnames row) ! i = map Str row ! i"
    by (simp add: dict_to_list_def row_dict_def)
qed

lemma header_row_names: "header_row (map Some fieldnames) = map Str fieldnames"
  by (simp add: header_row_def)

lemma fold_restval:
  "map_of (fold (\<lambda>k d'. dict_set d' (Some k) NoneVal) ks d) (Some k) =
     (if k \<in> set ks then Some NoneVal else map_of d (Some k))"
  by (induction ks arbitrary: d) (auto simp: map_of_dict_set)

lemma short_row:
  "length row < length fieldnames \<Longrightarrow> k \<in> set (drop (length row) fieldnames) \<Longrightarrow>
   dict_get (make_row_dict fieldnames row) (Some k) = NoneVal"
  by (simp add: make_row_dict_def dict_get_def fold_restval Let_def)

lemma long_row:
  "length fieldnames < length row \<Longrightarrow>
   dict_get (make_row_dict fieldnames row) None = StrList (drop (length fieldnames) row)"
  by (simp add: make_row_dict_def dict_get_dict_set Let_def)

lemma missing_epics:
  "fs (EPICS_CSV_PATH g) = None \<Longrightarrow>
   sync_epics_to_jira g dry_run fs =
     \<lparr>stdout = [Starting_Epic_Sync], files = fs, raised = Some FileNotFoundError\<rparr>"
  by (simp add: sync_epics_to_jira_def read_csv_data_def)

lemma missing_backlog:
  "fs (BACKLOG_CSV_PATH g) = None \<Longrightarrow>
   sync_backlog_to_jira g dry_run fs =
     \<lparr>stdout = [Starting_Backlog_Sync], files = fs, raised = Some FileNotFoundError\<rparr>"
  by (simp add: sync_backlog_to_jira_def read_csv_data_def)















lemma empty_load: "fs file_path = Some (Text []) \<Longrightarrow> read_csv_data file_path fs = Inr []"
  by (simp add: read_csv_data_def text_lines_def DictReader_list_def parse_reset_def)

lemma undecodable_load:
  "fs file_path = Some Undecodable \<Longrightarrow> read_csv_data file_path fs = Inl UnicodeDecodeError"
  by (simp add: read_csv_data_def)

subsection \<open>The reader over a whole text\<close>

lemma translate_newlines_crlf:
  "CR \<notin> set s \<Longrightarrow> translate_newlines (s @ CR # LF # t) = s @ LF # translate_newlines t"
proof (induction s)
  case Nil
  show ?case by simp
next
  case (Cons c s)
  then show ?case by (cases s) auto
qed

lemma split_lines_line:
  "LF \<notin> set s \<Longrightarrow> split_lines cur (s @ LF # t) = (cur @ s @ [LF]) # split_lines [] t"
  by (induction s arbitrary: cur) auto

lemma set_join: "set (join sep xs) \<subseteq> set sep \<union> \<Union> (set ` set xs)"
  by (induction sep xs rule: join.induct) auto

lemma feed_line_append:
  "feed_line r (a @ b) = (case feed_line r a of Inl e \<Rightarrow> Inl e | Inr r' \<Rightarrow> feed_line r' b)"
proof (induction a arbitrary: r)
  case Nil
  show ?case by simp
next
  case (Cons c a)
  show ?case
    by (cases "parse_process_char r (Some c)")
       (simp_all add: Cons del: parse_process_char.simps)
qed

lemma reader_rows_line_error:
  "cur \<noteq> [] \<Longrightarrow> feed_line r0 cur = Inl e \<Longrightarrow> reader_rows r0 (split_lines cur s) = Inl e"
proof (induction s arbitrary: cur)
  case Nil
  then show ?case by simp
next
  case (Cons c s)
  from Cons.prems have f: "feed_line r0 (cur @ [c]) = Inl e" by (simp add: feed_line_append)
  show ?case
  proof (cases "c = LF")
    case True
    with f show ?thesis by simp
  next
    case False
    with Cons.IH [of "cur @ [c]"] f show ?thesis by simp
  qed
qed

lemma reader_rows_stream:
  "feed_line r0 cur = Inr r \<Longrightarrow>
   reader_rows r0 (split_lines cur s) = stream_rows (cur \<noteq> []) r s"
proof (induction s arbitrary: r0 cur r)
  case Nil
  show ?case
  proof (cases cur)
    case Nil
    with Nil.prems show ?thesis by simp
  next
    case (Cons c cs)
    with Nil.prems show ?thesis by (simp del: parse_process_char.simps feed_line.simps)
  qed
next
  case (Cons c s)
  have fa: "feed_line r0 (cur @ [c]) =
      (case parse_process_char r (Some c) of Inl e \<Rightarrow> Inl e | Inr r1 \<Rightarrow> Inr r1)"
    using Cons.prems
    by (cases "parse_process_char r (Some c)")
       (simp_all add: feed_line_append del: parse_process_char.simps)
  show ?case
  proof (cases "parse_process_char r (Some c)")
    case (Inl e)
    with fa have f: "feed_line r0 (cur @ [c]) = Inl e" by simp
    show ?thesis
    proof (cases "c = LF")
      case True
      with f Inl show ?thesis by (simp del: parse_process_char.simps)
    next
      case False
      with reader_rows_line_error [OF _ f, of s] Inl show ?thesis
        by (simp del: parse_process_char.simps)
    qed
  next
    case (Inr r1)
    with fa have f: "feed_line r0 (cur @ [c]) = Inr r1" by simp
    show ?thesis
    proof (cases "c = LF")
      case True
      have a: "reader_rows parse_reset (split_lines [] s) = stream_rows False parse_reset s"
        using Cons.IH [of parse_reset "[]" parse_reset] by simp
      have b: "\<And>r2. reader_rows r2 (split_lines [] s) = stream_rows False r2 s"
        using Cons.IH [of _ "[]"] by simp
      from True f Inr a b show ?thesis
        by (simp del: parse_process_char.simps split: sum.splits)
    next
      case False
      with Cons.IH [OF f] Inr show ?thesis by (simp del: parse_process_char.simps)
    qed
  qed
qed

lemma text_lines_stream:
  "reader_rows parse_reset (split_lines [] t) = stream_rows False parse_reset t"
  using reader_rows_stream [of parse_reset "[]" parse_reset t] by simp

lemma stream_rows_flag: "stream_rows p r (c # s) = stream_rows True r (c # s)"
  by (simp del: parse_process_char.simps)

lemma stream_in_field:
  "\<not> list_ex needs_quote u \<Longrightarrow> length b + length u \<le> field_limit \<Longrightarrow>
   stream_rows p \<lparr>state = IN_FIELD, field_buf = b, rec_fields = fs\<rparr> (u @ c # s) =
   stream_rows True \<lparr>state = IN_FIELD, field_buf = b @ u, rec_fields = fs\<rparr> (c # s)"
proof (induction u arbitrary: b p)
  case Nil
  show ?case by (simp del: stream_rows.simps add: stream_rows_flag [of p])
next
  case (Cons x u)
  from Cons.prems have x: "x \<noteq> LF" "x \<noteq> CR" "x \<noteq> COMMA" and l: "\<not> field_limit \<le> length b"
    by (auto simp: needs_quote_def)
  from Cons.prems have "\<not> list_ex needs_quote u" "length (b @ [x]) + length u \<le> field_limit"
    by auto
  from Cons.IH [OF this, of True] x l show ?case by (simp add: parse_add_char_def)
qed

lemma stream_quoted_body:
  "\<not> list_ex (\<lambda>c. c = CR) u \<Longrightarrow> length b + length u \<le> field_limit \<Longrightarrow>
   stream_rows p \<lparr>state = IN_QUOTED_FIELD, field_buf = b, rec_fields = fs\<rparr>
     (concat (map (\<lambda>c. if c = DQUOTE then [c, c] else [c]) u) @ DQUOTE # s) =
   stream_rows True \<lparr>state = QUOTE_IN_QUOTED_FIELD, field_buf = b @ u, rec_fields = fs\<rparr> s"
proof (induction u arbitrary: b p)
  case Nil
  show ?case by simp
next
  case (Cons x u)
  from Cons.prems have l: "\<not> field_limit \<le> length b" and x: "x \<noteq> CR" by auto
  from Cons.prems have p: "\<not> list_ex (\<lambda>c. c = CR) u" "length (b @ [x]) + length u \<le> field_limit"
    by auto
  note ih = Cons.IH [OF p]
  show ?case
  proof (cases "x = DQUOTE")
    case True
    with ih [of True] l show ?thesis by (simp add: parse_add_char_def)
  next
    case q: False
    show ?thesis
    proof (cases "x = LF")
      case True
      with ih [of False] l show ?thesis by (simp add: parse_add_char_def)
    next
      case False
      with q ih [of True] l show ?thesis by (simp add: parse_add_char_def)
    qed
  qed
qed

lemma stream_after_quote:
  "stream_rows p \<lparr>state = QUOTE_IN_QUOTED_FIELD, field_buf = f, rec_fields = fs\<rparr> (COMMA # s) =
     stream_rows True \<lparr>state = START_FIELD, field_buf = [], rec_fields = fs @ [f]\<rparr> s"
  "stream_rows p \<lparr>state = QUOTE_IN_QUOTED_FIELD, field_buf = f, rec_fields = fs\<rparr> (LF # s) =
     (case stream_rows False parse_reset s of
        Inl e \<Rightarrow> Inl e
      | Inr rows \<Rightarrow> Inr ((fs @ [f]) # rows))"
  by (simp_all add: parse_save_field_def split: sum.splits)

lemma stream_quoted_field:
  assumes "storable_field f"
  shows "stream_rows p \<lparr>state = START_FIELD, field_buf = [], rec_fields = fs\<rparr>
           (DQUOTE # concat (map (\<lambda>c. if c = DQUOTE then [c, c] else [c]) f) @ DQUOTE # COMMA # s) =
         stream_rows True \<lparr>state = START_FIELD, field_buf = [], rec_fields = fs @ [f]\<rparr> s"
    and "stream_rows p \<lparr>state = START_FIELD, field_buf = [], rec_fields = fs\<rparr>
           (DQUOTE # concat (map (\<lambda>c. if c = DQUOTE then [c, c] else [c]) f) @ DQUOTE # LF # s) =
         (case stream_rows False parse_reset s of
            Inl e \<Rightarrow> Inl e
          | Inr rows \<Rightarrow> Inr ((fs @ [f]) # rows))"
proof -
  from assms have a: "\<not> list_ex (\<lambda>c. c = CR) f" "length ([] :: string) + length f \<le> field_limit"
    by (simp_all add: storable_field_def)
  have start: "\<And>t. stream_rows p \<lparr>state = START_FIELD, field_buf = [], rec_fields = fs\<rparr> (DQUOTE # t) =
      stream_rows True \<lparr>state = IN_QUOTED_FIELD, field_buf = [], rec_fields = fs\<rparr> t"
    by (simp add: start_field_def)
  show "stream_rows p \<lparr>state = START_FIELD, field_buf = [], rec_fields = fs\<rparr>
           (DQUOTE # concat (map (\<lambda>c. if c = DQUOTE then [c, c] else [c]) f) @ DQUOTE # COMMA # s) =
         stream_rows True \<lparr>state = START_FIELD, field_buf = [], rec_fields = fs @ [f]\<rparr> s"
    by (simp add: start stream_quoted_body [OF a] stream_after_quote del: stream_rows.simps
        split: sum.splits)
  show "stream_rows p \<lparr>state = START_FIELD, field_buf = [], rec_fields = fs\<rparr>
           (DQUOTE # concat (map (\<lambda>c. if c = DQUOTE then [c, c] else [c]) f) @ DQUOTE # LF # s) =
         (case stream_rows False parse_reset s of
            Inl e \<Rightarrow> Inl e
          | Inr rows \<Rightarrow> Inr ((fs @ [f]) # rows))"
    by (simp add: start stream_quoted_body [OF a] stream_after_quote del: stream_rows.simps
        split: sum.splits)
qed

lemma stream_plain_field:
  assumes "\<not> list_ex needs_quote f" and "length f \<le> field_limit"
  shows "stream_rows p \<lparr>state = START_FIELD, field_buf = [], rec_fields = fs\<rparr> (f @ COMMA # s) =
         stream_rows True \<lparr>state = START_FIELD, field_buf = [], rec_fields = fs @ [f]\<rparr> s"
    and "stream_rows p \<lparr>state = START_FIELD, field_buf = [], rec_fields = fs\<rparr> (f @ LF # s) =
         (case stream_rows False parse_reset s of
            Inl e \<Rightarrow> Inl e
          | Inr rows \<Rightarrow> Inr ((fs @ [f]) # rows))"
proof -
  have both: "stream_rows p \<lparr>state = START_FIELD, field_buf = [], rec_fields = fs\<rparr> (f @ COMMA # s) =
         stream_rows True \<lparr>state = START_FIELD, field_buf = [], rec_fields = fs @ [f]\<rparr> s \<and>
        stream_rows p \<lparr>state = START_FIELD, field_buf = [], rec_fields = fs\<rparr> (f @ LF # s) =
         (case stream_rows False parse_reset s of
            Inl e \<Rightarrow> Inl e
          | Inr rows \<Rightarrow> Inr ((fs @ [f]) # rows))"
  proof (cases f)
    case Nil
    then show ?thesis by (simp add: start_field_def parse_save_field_def split: sum.splits)
  next
    case (Cons x u)
    with assms have x: "x \<noteq> LF" "x \<noteq> CR" "x \<noteq> COMMA" "x \<noteq> DQUOTE"
      and u: "\<not> list_ex needs_quote u" "length [x] + length u \<le> field_limit"
      by (auto simp: needs_quote_def)
    from u have l: "\<not> field_limit \<le> 0" by auto
    have first: "\<And>c t. stream_rows p \<lparr>state = START_FIELD, field_buf = [], rec_fields = fs\<rparr>
          (x # u @ c # t) =
          stream_rows True \<lparr>state = IN_FIELD, field_buf = x # u, rec_fields = fs\<rparr> (c # t)"
      using x l stream_in_field [OF u, of True fs] by (simp add: start_field_def parse_add_char_def)
    show ?thesis using first [of COMMA s] first [of LF s] Cons
      by (simp add: parse_save_field_def split: sum.splits)
  qed
  from both show "stream_rows p \<lparr>state = START_FIELD, field_buf = [], rec_fields = fs\<rparr> (f @ COMMA # s) =
         stream_rows True \<lparr>state = START_FIELD, field_buf = [], rec_fields = fs @ [f]\<rparr> s" by blast
  from both show "stream_rows p \<lparr>state = START_FIELD, field_buf = [], rec_fields = fs\<rparr> (f @ LF # s) =
         (case stream_rows False parse_reset s of
            Inl e \<Rightarrow> Inl e
          | Inr rows \<Rightarrow> Inr ((fs @ [f]) # rows))" by blast
qed

lemma stream_field:
  assumes "storable_field f"
  shows "stream_rows p \<lparr>state = START_FIELD, field_buf = [], rec_fields = fs\<rparr>
           (join_append f @ COMMA # s) =
         stream_rows True \<lparr>state = START_FIELD, field_buf = [], rec_fields = fs @ [f]\<rparr> s"
    and "stream_rows p \<lparr>state = START_FIELD, field_buf = [], rec_fields = fs\<rparr>
           (join_append f @ LF # s) =
         (case stream_rows False parse_reset s of
            Inl e \<Rightarrow> Inl e
          | Inr rows \<Rightarrow> Inr ((fs @ [f]) # rows))"
proof -
  from assms have l: "length f \<le> field_limit" by (simp add: storable_field_def)
  show "stream_rows p \<lparr>state = START_FIELD, field_buf = [], rec_fields = fs\<rparr>
           (join_append f @ COMMA # s) =
         stream_rows True \<lparr>state = START_FIELD, field_buf = [], rec_fields = fs @ [f]\<rparr> s"
  proof (cases "list_ex needs_quote f")
    case True
    with stream_quoted_field(1) [OF assms, of p fs s] show ?thesis by (simp add: join_append_def)
  next
    case False
    with stream_plain_field(1) [OF False l, of p fs s] show ?thesis by (simp add: join_append_def)
  qed
  show "stream_rows p \<lparr>state = START_FIELD, field_buf = [], rec_fields = fs\<rparr>
           (join_append f @ LF # s) =
         (case stream_rows False parse_reset s of
            Inl e \<Rightarrow> Inl e
          | Inr rows \<Rightarrow> Inr ((fs @ [f]) # rows))"
  proof (cases "list_ex needs_quote f")
    case True
    with stream_quoted_field(2) [OF assms, of p fs s] show ?thesis by (simp add: join_append_def)
  next
    case False
    with stream_plain_field(2) [OF False l, of p fs s] show ?thesis by (simp add: join_append_def)
  qed
qed

lemma stream_fields:
  "row \<noteq> [] \<Longrightarrow> list_all storable_field row \<Longrightarrow>
   stream_rows p \<lparr>state = START_FIELD, field_buf = [], rec_fields = fs\<rparr>
     (join [COMMA] (map join_append row) @ LF # s) =
   (case stream_rows False parse_reset s of
      Inl e \<Rightarrow> Inl e
    | Inr rows \<Rightarrow> Inr ((fs @ row) # rows))"
proof (induction row arbitrary: fs p)
  case Nil
  then show ?case by simp
next
  case (Cons f row)
  from Cons.prems have f: "storable_field f" by simp
  show ?case
  proof (cases row)
    case Nil
    with stream_field(2) [OF f, of p fs s] show ?thesis by (simp split: sum.splits)
  next
    case (Cons g gs)
    with Cons.prems have "row \<noteq> []" "list_all storable_field row" by simp_all
    from Cons.IH [OF this, of True "fs @ [f]"] stream_field(1) [OF f, of p fs] Cons
    show ?thesis by (simp split: sum.splits)
  qed
qed

subsection \<open>Reading and writing a source in the writer's form\<close>

lemma record_text_first:
  assumes "storable_row row"
  shows "\<exists>c t. record_text row = c # t \<and> c \<noteq> LF \<and> c \<noteq> CR"
proof -
  from assms obtain f fs where row: "row = f # fs" and f: "storable_field f"
    by (cases row) (auto simp: storable_row_def)
  show ?thesis
  proof (cases "join_append f")
    case Nil
    then have fe: "f = []" by (auto simp: join_append_def split: if_splits)
    show ?thesis
    proof (cases fs)
      case Nil
      with row fe show ?thesis by (simp add: record_text_def join_append_def)
    next
      case (Cons g gs)
      with row fe show ?thesis by (simp add: record_text_def join_append_def)
    qed
  next
    case (Cons c t)
    have c: "c \<noteq> LF \<and> c \<noteq> CR"
    proof (cases "list_ex needs_quote f")
      case True
      with Cons show ?thesis by (auto simp: join_append_def)
    next
      case False
      with Cons have "f = c # t" by (simp add: join_append_def)
      with False show ?thesis by (auto simp: needs_quote_def)
    qed
    have "record_text row = c # (t @ (case fs of [] \<Rightarrow> [] | g # gs \<Rightarrow> COMMA # join [COMMA] (map join_append fs)))"
      using row Cons by (cases fs) (simp_all add: record_text_def)
    with c show ?thesis by blast
  qed
qed

lemma stream_start_record:
  "c \<noteq> LF \<Longrightarrow> c \<noteq> CR \<Longrightarrow>
   stream_rows p parse_reset (c # t) =
   stream_rows p \<lparr>state = START_FIELD, field_buf = [], rec_fields = []\<rparr> (c # t)"
  by (simp add: parse_reset_def is_newline_def)

lemma stream_record:
  assumes "storable_row row"
  shows "stream_rows p parse_reset (record_text row @ LF # s) =
         (case stream_rows False parse_reset s of
            Inl e \<Rightarrow> Inl e
          | Inr rows \<Rightarrow> Inr (row # rows))"
proof -
  from record_text_first [OF assms] obtain c t where
    ct: "record_text row = c # t" and c: "c \<noteq> LF" "c \<noteq> CR" by blast
  have start: "stream_rows p parse_reset (record_text row @ LF # s) =
      stream_rows p \<lparr>state = START_FIELD, field_buf = [], rec_fields = []\<rparr>
        (record_text row @ LF # s)"
    unfolding ct append_Cons by (rule stream_start_record [OF c])
  from assms have ne: "row \<noteq> []" and st: "list_all storable_field row"
    by (simp_all add: storable_row_def)
  show ?thesis
  proof (cases "join [COMMA] (map join_append row) = []")
    case True
    with ne have rt: "record_text row = [DQUOTE, DQUOTE]" by (simp add: record_text_def)
    have row: "row = [[]]"
    proof -
      from ne obtain f fs where r: "row = f # fs" by (cases row) auto
      with True have "fs = []" by (cases fs) auto
      with r True have "join_append f = []" by simp
      then have "f = []" by (auto simp: join_append_def split: if_splits)
      with r \<open>fs = []\<close> show ?thesis by simp
    qed
    have "storable_field []" by (simp add: storable_field_def)
    from stream_quoted_field(2) [OF this, of p "[]" s]
    have "stream_rows p \<lparr>state = START_FIELD, field_buf = [], rec_fields = []\<rparr>
            ([DQUOTE, DQUOTE] @ LF # s) =
          (case stream_rows False parse_reset s of
             Inl e \<Rightarrow> Inl e
           | Inr rows \<Rightarrow> Inr ([[]] # rows))"
      by (simp del: stream_rows.simps split: sum.splits)
    with start rt row show ?thesis by (simp del: stream_rows.simps split: sum.splits)
  next
    case False
    with ne have rt: "record_text row = join [COMMA] (map join_append row)"
      by (simp add: record_text_def)
    from stream_fields [OF ne st, of p "[]" s] start rt show ?thesis
      by (simp del: stream_rows.simps split: sum.splits)
  qed
qed

lemma stream_text:
  "list_all storable_row records \<Longrightarrow>
   stream_rows False parse_reset (csv_text [LF] records) = Inr records"
proof (induction records)
  case Nil
  show ?case by (simp add: csv_text_def parse_reset_def)
next
  case (Cons row records)
  then have r: "storable_row row" and ih: "stream_rows False parse_reset (csv_text [LF] records) = Inr records"
    by simp_all
  have "csv_text [LF] (row # records) = record_text row @ LF # csv_text [LF] records"
    by (simp add: csv_text_def)
  with stream_record [OF r, of False "csv_text [LF] records"] ih show ?case by simp
qed

lemma set_join_append: "set (join_append f) \<subseteq> insert DQUOTE (set f)"
  by (auto simp: join_append_def split: if_splits)

lemma record_text_no_cr:
  assumes "storable_row row"
  shows "CR \<notin> set (record_text row)"
proof
  assume a: "CR \<in> set (record_text row)"
  have "set (record_text row) \<subseteq> {COMMA, DQUOTE} \<union> \<Union> (set ` set (map join_append row))"
    using set_join [of "[COMMA]" "map join_append row"]
    by (auto simp: record_text_def Let_def split: if_splits)
  with a obtain f where f: "f \<in> set row" "CR \<in> set (join_append f)" by auto
  with set_join_append [of f] have "CR \<in> set f" by auto
  moreover from assms f have "storable_field f" by (auto simp: storable_row_def list_all_iff)
  ultimately show False by (auto simp: storable_field_def list_ex_iff)
qed

lemma translate_no_cr: "CR \<notin> set t \<Longrightarrow> translate_newlines t = t"
  by (induction t rule: translate_newlines.induct) auto

lemma csv_text_no_cr:
  "list_all storable_row records \<Longrightarrow> CR \<notin> set (csv_text [LF] records)"
  by (induction records) (auto simp: csv_text_def dest: record_text_no_cr)

lemma translate_csv_text:
  "list_all storable_row records \<Longrightarrow>
   translate_newlines (csv_text [CR, LF] records) = csv_text [LF] records"
proof (induction records)
  case Nil
  show ?case by (simp add: csv_text_def)
next
  case (Cons row records)
  then have "CR \<notin> set (record_text row)" by (simp add: record_text_no_cr)
  from translate_newlines_crlf [OF this] Cons show ?case by (simp add: csv_text_def)
qed

lemma text_lines_csv_text:
  assumes "list_all storable_row records" and "eol = [LF] \<or> eol = [CR, LF]"
  shows "reader_rows parse_reset (text_lines (csv_text eol records)) = Inr records"
proof -
  have "translate_newlines (csv_text eol records) = csv_text [LF] records"
    using assms translate_csv_text [OF assms(1)] translate_no_cr [OF csv_text_no_cr [OF assms(1)]]
    by auto
  then show ?thesis
    by (simp add: text_lines_def text_lines_stream stream_text [OF assms(1)])
qed

lemma load_csv_text:
  assumes "storable_row fieldnames" and "list_all storable_row rows"
    and "eol = [LF] \<or> eol = [CR, LF]"
    and "fs file_path = Some (Text (csv_text eol (fieldnames # rows)))"
  shows "read_csv_data file_path fs = Inr (map (make_row_dict fieldnames) rows)"
proof -
  have all: "list_all storable_row (fieldnames # rows)" using assms(1,2) by simp
  have f: "filter (\<lambda>row. row \<noteq> []) rows = rows"
    using assms(2) by (auto simp: list_all_iff filter_id_conv storable_row_def)
  show ?thesis
    using assms(4) text_lines_csv_text [OF all assms(3)] f
    by (simp add: read_csv_data_def DictReader_list_def)
qed

lemma writerow_record_text: "writerow (map Str row) = record_text row @ [CR, LF]"
proof -
  have m: "map (\<lambda>v. join_append (field_text v)) (map Str row) = map join_append row"
    by simp
  have n: "(map Str row \<noteq> []) = (row \<noteq> [])" by simp
  show ?thesis unfolding writerow_def record_text_def Let_def m n by (rule refl)
qed

lemma save_rows:
  assumes "distinct fieldnames"
    and "list_all (\<lambda>row. length row = length fieldnames) rows"
  shows "writerows (map Some fieldnames) (map (row_dict fieldnames) rows) out =
         (out @ csv_text [CR, LF] rows, None)"
  using assms(2)
proof (induction rows arbitrary: out)
  case Nil
  show ?case by (simp add: csv_text_def)
next
  case (Cons r rows)
  then have l: "length r = length fieldnames" by simp
  from Cons l assms(1) show ?case
    by (simp add: wrong_fields_row_dict dict_to_list_row_dict writerow_record_text csv_text_def)
qed

lemma save_csv_text:
  assumes "distinct fieldnames"
    and "list_all (\<lambda>row. length row = length fieldnames) rows"
  shows "update_csv_data file_path (map (row_dict fieldnames) rows) (map Some fieldnames) fs =
         (fs(file_path \<mapsto> Text (csv_text [CR, LF] (fieldnames # rows))), None)"
  by (simp add: update_csv_data_def header_row_names writerow_record_text
      save_rows [OF assms] csv_text_def)

subsection \<open>The example files, evaluated\<close>

lemmas reader_defs = parse_reset_def start_field_def parse_add_char_def parse_save_field_def
  field_limit_def is_newline_def

lemmas writer_defs = update_csv_data_def writerow_def header_row_def dict_to_list_def
  wrong_fields_def dict_keys_def join_append_def needs_quote_def

lemma module_paths:
  "EPICS_CSV_PATH (load_module environ) = ''pm/epics.csv''"
  "BACKLOG_CSV_PATH (load_module environ) = ''pm/sprint_backlog.csv''"
  by (simp_all add: load_module_def)

lemma example_epics_load: "read_csv_data ''pm/epics.csv'' example_fs = Inr example_epics"
proof -
  have t: "text_lines example_epics_csv =
     [''EpicID,Title,JiraTicketID'' @ [LF], ''E1,Login flow,'' @ [LF], ''E2,Billing,FER-10'' @ [LF]]"
    by (simp add: example_epics_csv_def text_lines_def)
  have r: "reader_rows parse_reset
     [''EpicID,Title,JiraTicketID'' @ [LF], ''E1,Login flow,'' @ [LF], ''E2,Billing,FER-10'' @ [LF]] =
     Inr [[''EpicID'', ''Title'', ''JiraTicketID''], [''E1'', ''Login flow'', []],
          [''E2'', ''Billing'', ''FER-10'']]"
    by (simp add: reader_defs)
  have "DictReader_list (text_lines example_epics_csv) = Inr example_epics"
    unfolding DictReader_list_def t r
    by (simp add: make_row_dict_def dict_of_zip_def example_epics_def)
  then show ?thesis by (simp add: read_csv_data_def example_fs_def)
qed

lemma example_backlog_load:
  "read_csv_data ''pm/sprint_backlog.csv'' example_fs = Inr example_backlog"
proof -
  have t: "text_lines example_backlog_csv =
     [''SubtaskID,SubtaskDescription,JiraTicketID'' @ [LF], ''T1.2,Write the parser,'' @ [LF]]"
    by (simp add: example_backlog_csv_def text_lines_def)
  have r: "reader_rows parse_reset
     [''SubtaskID,SubtaskDescription,JiraTicketID'' @ [LF], ''T1.2,Write the parser,'' @ [LF]] =
     Inr [[''SubtaskID'', ''SubtaskDescription'', ''JiraTicketID''], [''T1.2'', ''Write the parser'', []]]"
    by (simp add: reader_defs)
  have "DictReader_list (text_lines example_backlog_csv) = Inr example_backlog"
    unfolding DictReader_list_def t r
    by (simp add: make_row_dict_def dict_of_zip_def example_backlog_def)
  then show ?thesis by (simp add: read_csv_data_def example_fs_def)
qed

lemma example_epics_loop:
  "epics_loop dry_run example_epics =
     ([Found_new_Epic ''Login flow'', Jira_Epic_key dry_run ''FER-101'',
       Skipping_Epic ''Billing'' ''FER-10''], example_epics_synced, None)"
  by (simp add: example_epics_def example_epics_synced_def sync_epic_def dict_get_def
      dict_item_def str_replace_def Let_def)


lemma example_backlog_loop:
  "backlog_loop dry_run example_backlog =
     ([Found_new_backlog_item ''Write the parser'', Jira_Issue_key dry_run ''FER-102''],
      example_backlog_synced, None)"
  by (simp add: example_backlog_def example_backlog_synced_def sync_item_def dict_get_def
      dict_item_def str_replace_def Let_def)



lemma example_epics_resave:
  "update_csv_data ''pm/epics.csv'' example_epics
     [Some ''EpicID'', Some ''Title'', Some ''JiraTicketID''] fs =
   (fs(''pm/epics.csv'' \<mapsto> Text example_epics_resaved), None)"
  by (simp add: example_epics_def example_epics_resaved_def writer_defs)


lemma example_main:
  "main environ example_fs =
     \<lparr>stdout = [Starting_process, Note_placeholder, Note_run_for_real,
                Starting_Epic_Sync, Found_new_Epic ''Login flow'', Jira_Epic_key True ''FER-101'',
                Skipping_Epic ''Billing'' ''FER-10'', Epic_Sync_Complete,
                Starting_Backlog_Sync, Found_new_backlog_item ''Write the parser'',
                Jira_Issue_key True ''FER-102'', Backlog_Sync_Complete, Sync_process_finished],
      files = example_fs, raised = None\<rparr>"
proof -
  have r1: "read_csv_data (EPICS_CSV_PATH (load_module environ)) example_fs = Inr example_epics"
    by (simp add: module_paths example_epics_load)
  have r2: "read_csv_data (BACKLOG_CSV_PATH (load_module environ)) example_fs = Inr example_backlog"
    by (simp add: module_paths example_backlog_load)
  note a = sync_epics_dry [OF r1 example_epics_loop]
  note b = sync_backlog_dry [OF r2 example_backlog_loop]
  show ?thesis by (simp add: main_def Let_def a b)
qed

lemma synced_epics_load: "read_csv_data ''pm/epics.csv'' synced_fs = Inr synced_epics"
proof -
  have t: "text_lines synced_epics_csv =
     [''EpicID,Title,JiraTicketID'' @ [LF], ''E7,Search,FER-999'' @ [LF]]"
    by (simp add: synced_epics_csv_def text_lines_def)
  have r: "reader_rows parse_reset
     [''EpicID,Title,JiraTicketID'' @ [LF], ''E7,Search,FER-999'' @ [LF]] =
     Inr [[''EpicID'', ''Title'', ''JiraTicketID''], [''E7'', ''Search'', ''FER-999'']]"
    by (simp add: reader_defs)
  have "DictReader_list (text_lines synced_epics_csv) = Inr synced_epics"
    unfolding DictReader_list_def t r
    by (simp add: make_row_dict_def dict_of_zip_def synced_epics_def)
  then show ?thesis by (simp add: read_csv_data_def synced_fs_def)
qed

lemma synced_backlog_load: "read_csv_data ''pm/sprint_backlog.csv'' synced_fs = Inr synced_backlog"
proof -
  have t: "text_lines synced_backlog_csv =
     [''SubtaskID,SubtaskDescription,JiraTicketID'' @ [LF], ''T3.1,Ship it,FER-999'' @ [LF]]"
    by (simp add: synced_backlog_csv_def text_lines_def)
  have r: "reader_rows parse_reset
     [''SubtaskID,SubtaskDescription,JiraTicketID'' @ [LF], ''T3.1,Ship it,FER-999'' @ [LF]] =
     Inr [[''SubtaskID'', ''SubtaskDescription'', ''JiraTicketID''], [''T3.1'', ''Ship it'', ''FER-999'']]"
    by (simp add: reader_defs)
  have "DictReader_list (text_lines synced_backlog_csv) = Inr synced_backlog"
    unfolding DictReader_list_def t r
    by (simp add: make_row_dict_def dict_of_zip_def synced_backlog_def)
  then show ?thesis by (simp add: read_csv_data_def synced_fs_def)
qed

lemma synced_epics_loop:
  "epics_loop dry_run synced_epics = ([Skipping_Epic ''Search'' ''FER-999''], synced_epics, None)"
  by (simp add: synced_epics_def sync_epic_def dict_get_def dict_item_def)

lemma synced_backlog_loop:
  "backlog_loop dry_run synced_backlog =
     ([Skipping_Subtask ''Ship it'' ''FER-999''], synced_backlog, None)"
  by (simp add: synced_backlog_def sync_item_def dict_get_def dict_item_def)

lemma synced_epics_save:
  "update_csv_data ''pm/epics.csv'' synced_epics
     [Some ''EpicID'', Some ''Title'', Some ''JiraTicketID''] fs =
   (fs(''pm/epics.csv'' \<mapsto> Text synced_epics_saved), None)"
  by (simp add: synced_epics_def synced_epics_saved_def writer_defs)

lemma synced_backlog_save:
  "update_csv_data ''pm/sprint_backlog.csv'' synced_backlog
     [Some ''SubtaskID'', Some ''SubtaskDescription'', Some ''JiraTicketID''] fs =
   (fs(''pm/sprint_backlog.csv'' \<mapsto> Text synced_backlog_saved), None)"
  by (simp add: synced_backlog_def synced_backlog_saved_def writer_defs)

lemma ragged_load: "read_csv_data ''pm/epics.csv'' [''pm/epics.csv'' \<mapsto> Text ragged_csv] = Inr ragged_epics"
proof -
  have t: "text_lines ragged_csv =
     [''EpicID,Title,JiraTicketID'' @ [LF], ''E1,Login flow'' @ [LF], ''E2,Billing,FER-10,extra'' @ [LF]]"
    by (simp add: ragged_csv_def text_lines_def)
  have r: "reader_rows parse_reset
     [''EpicID,Title,JiraTicketID'' @ [LF], ''E1,Login flow'' @ [LF], ''E2,Billing,FER-10,extra'' @ [LF]] =
     Inr [[''EpicID'', ''Title'', ''JiraTicketID''], [''E1'', ''Login flow''],
          [''E2'', ''Billing'', ''FER-10'', ''extra'']]"
    by (simp add: reader_defs)
  have "DictReader_list (text_lines ragged_csv) = Inr ragged_epics"
    unfolding DictReader_list_def t r
    by (simp add: make_row_dict_def dict_of_zip_def ragged_epics_def)
  then show ?thesis by (simp add: read_csv_data_def)
qed

lemma long_row_load:
  "read_csv_data ''pm/epics.csv'' [''pm/epics.csv'' \<mapsto> Text long_row_csv] = Inr long_row_epics"
proof -
  have t: "text_lines long_row_csv =
     [''EpicID,Title,JiraTicketID'' @ [LF], ''E1,Login,FER-1'' @ [LF], ''E2,Billing,FER-2,extra'' @ [LF]]"
    by (simp add: long_row_csv_def text_lines_def)
  have r: "reader_rows parse_reset
     [''EpicID,Title,JiraTicketID'' @ [LF], ''E1,Login,FER-1'' @ [LF], ''E2,Billing,FER-2,extra'' @ [LF]] =
     Inr [[''EpicID'', ''Title'', ''JiraTicketID''], [''E1'', ''Login'', ''FER-1''],
          [''E2'', ''Billing'', ''FER-2'', ''extra'']]"
    by (simp add: reader_defs)
  have "DictReader_list (text_lines long_row_csv) = Inr long_row_epics"
    unfolding DictReader_list_def t r
    by (simp add: make_row_dict_def dict_of_zip_def long_row_epics_def)
  then show ?thesis by (simp add: read_csv_data_def)
qed

lemma long_row_loop:
  "epics_loop dry_run long_row_epics =
     ([Skipping_Epic ''Login'' ''FER-1'', Skipping_Epic ''Billing'' ''FER-2''], long_row_epics, None)"
  by (simp add: long_row_epics_def sync_epic_def dict_get_def dict_item_def)

lemma long_row_save:
  "update_csv_data ''pm/epics.csv'' long_row_epics
     [Some ''EpicID'', Some ''Title'', Some ''JiraTicketID''] fs =
   (fs(''pm/epics.csv'' \<mapsto> Text long_row_saved), Some ValueError)"
  by (simp add: long_row_epics_def long_row_saved_def writer_defs)

lemma header_only_load:
  "read_csv_data ''pm/epics.csv'' header_only_fs = Inr []"
  "read_csv_data ''pm/sprint_backlog.csv'' header_only_fs = Inr []"
proof -
  have t: "text_lines (''EpicID,Title,JiraTicketID'' @ [LF]) = [''EpicID,Title,JiraTicketID'' @ [LF]]"
    by (simp add: text_lines_def)
  have r: "reader_rows parse_reset [''EpicID,Title,JiraTicketID'' @ [LF]] =
     Inr [[''EpicID'', ''Title'', ''JiraTicketID'']]"
    by (simp add: reader_defs)
  have "DictReader_list (text_lines (''EpicID,Title,JiraTicketID'' @ [LF])) = Inr []"
    unfolding DictReader_list_def t r by simp
  then show "read_csv_data ''pm/epics.csv'' header_only_fs = Inr []"
    by (simp add: read_csv_data_def header_only_fs_def)
  show "read_csv_data ''pm/sprint_backlog.csv'' header_only_fs = Inr []"
    by (simp add: read_csv_data_def header_only_fs_def text_lines_def DictReader_list_def
        parse_reset_def)
qed






lemma needless_quotes_trip:
  "read_csv_data ''pm/epics.csv'' [''pm/epics.csv'' \<mapsto> Text needless_quotes_csv] =
     Inr [[(Some ''EpicID'', Str ''E1''), (Some ''Title'', Str ''Login'')]]"
  "update_csv_data ''pm/epics.csv'' [[(Some ''EpicID'', Str ''E1''), (Some ''Title'', Str ''Login'')]]
     [Some ''EpicID'', Some ''Title''] fs =
   (fs(''pm/epics.csv'' \<mapsto> Text (''EpicID,Title'' @ [CR, LF] @ ''E1,Login'' @ [CR, LF])), None)"
proof -
  have t: "text_lines needless_quotes_csv =
     [''EpicID,Title'' @ [LF], [DQUOTE] @ ''E1'' @ [DQUOTE] @ '',Login'' @ [LF]]"
    by (simp add: needless_quotes_csv_def text_lines_def)
  have r: "reader_rows parse_reset
     [''EpicID,Title'' @ [LF], [DQUOTE] @ ''E1'' @ [DQUOTE] @ '',Login'' @ [LF]] =
     Inr [[''EpicID'', ''Title''], [''E1'', ''Login'']]"
    by (simp add: reader_defs)
  have "DictReader_list (text_lines needless_quotes_csv) =
      Inr [[(Some ''EpicID'', Str ''E1''), (Some ''Title'', Str ''Login'')]]"
    unfolding DictReader_list_def t r by (simp add: make_row_dict_def dict_of_zip_def)
  then show "read_csv_data ''pm/epics.csv'' [''pm/epics.csv'' \<mapsto> Text needless_quotes_csv] =
     Inr [[(Some ''EpicID'', Str ''E1''), (Some ''Title'', Str ''Login'')]]"
    by (simp add: read_csv_data_def)
  show "update_csv_data ''pm/epics.csv'' [[(Some ''EpicID'', Str ''E1''), (Some ''Title'', Str ''Login'')]]
     [Some ''EpicID'', Some ''Title''] fs =
   (fs(''pm/epics.csv'' \<mapsto> Text (''EpicID,Title'' @ [CR, LF] @ ''E1,Login'' @ [CR, LF])), None)"
    by (simp add: writer_defs)
qed

lemma same_names_trip:
  "read_csv_data ''pm/epics.csv'' [''pm/epics.csv'' \<mapsto> Text same_names_csv] =
     Inr [[(Some ''Title'', Str ''Billing'')]]"
  "update_csv_data ''pm/epics.csv'' [[(Some ''Title'', Str ''Billing'')]] [Some ''Title''] fs =
   (fs(''pm/epics.csv'' \<mapsto> Text (''Title'' @ [CR, LF] @ ''Billing'' @ [CR, LF])), None)"
proof -
  have t: "text_lines same_names_csv = [''Title,Title'' @ [LF], ''Login,Billing'' @ [LF]]"
    by (simp add: same_names_csv_def text_lines_def)
  have r: "reader_rows parse_reset [''Title,Title'' @ [LF], ''Login,Billing'' @ [LF]] =
     Inr [[''Title'', ''Title''], [''Login'', ''Billing'']]"
    by (simp add: reader_defs)
  have "DictReader_list (text_lines same_names_csv) = Inr [[(Some ''Title'', Str ''Billing'')]]"
    unfolding DictReader_list_def t r by (simp add: make_row_dict_def dict_of_zip_def)
  then show "read_csv_data ''pm/epics.csv'' [''pm/epics.csv'' \<mapsto> Text same_names_csv] =
     Inr [[(Some ''Title'', Str ''Billing'')]]"
    by (simp add: read_csv_data_def)
  show "update_csv_data ''pm/epics.csv'' [[(Some ''Title'', Str ''Billing'')]] [Some ''Title''] fs =
   (fs(''pm/epics.csv'' \<mapsto> Text (''Title'' @ [CR, LF] @ ''Billing'' @ [CR, LF])), None)"
    by (simp add: writer_defs)
qed

lemma inner_cr_trip:
  "read_csv_data ''pm/epics.csv'' [''pm/epics.csv'' \<mapsto> Text inner_cr_csv] =
     Inr [[(Some ''EpicID'', Str ''E1''), (Some ''Title'', Str (''Log'' @ [LF] @ ''in''))]]"
  "update_csv_data ''pm/epics.csv''
     [[(Some ''EpicID'', Str ''E1''), (Some ''Title'', Str (''Log'' @ [LF] @ ''in''))]]
     [Some ''EpicID'', Some ''Title''] fs =
   (fs(''pm/epics.csv'' \<mapsto>
      Text (''EpicID,Title'' @ [CR, LF] @ ''E1,'' @ [DQUOTE] @ ''Log'' @ [LF] @ ''in'' @
            [DQUOTE] @ [CR, LF])), None)"
proof -
  have t: "text_lines inner_cr_csv =
     [''EpicID,Title'' @ [LF], ''E1,'' @ [DQUOTE] @ ''Log'' @ [LF], ''in'' @ [DQUOTE] @ [LF]]"
    by (simp add: inner_cr_csv_def text_lines_def)
  have r: "reader_rows parse_reset
     [''EpicID,Title'' @ [LF], ''E1,'' @ [DQUOTE] @ ''Log'' @ [LF], ''in'' @ [DQUOTE] @ [LF]] =
     Inr [[''EpicID'', ''Title''], [''E1'', ''Log'' @ [LF] @ ''in'']]"
    by (simp add: reader_defs)
  have "DictReader_list (text_lines inner_cr_csv) =
      Inr [[(Some ''EpicID'', Str ''E1''), (Some ''Title'', Str (''Log'' @ [LF] @ ''in''))]]"
    unfolding DictReader_list_def t r by (simp add: make_row_dict_def dict_of_zip_def)
  then show "read_csv_data ''pm/epics.csv'' [''pm/epics.csv'' \<mapsto> Text inner_cr_csv] =
     Inr [[(Some ''EpicID'', Str ''E1''), (Some ''Title'', Str (''Log'' @ [LF] @ ''in''))]]"
    by (simp add: read_csv_data_def)
  show "update_csv_data ''pm/epics.csv''
     [[(Some ''EpicID'', Str ''E1''), (Some ''Title'', Str (''Log'' @ [LF] @ ''in''))]]
     [Some ''EpicID'', Some ''Title''] fs =
   (fs(''pm/epics.csv'' \<mapsto>
      Text (''EpicID,Title'' @ [CR, LF] @ ''E1,'' @ [DQUOTE] @ ''Log'' @ [LF] @ ''in'' @
            [DQUOTE] @ [CR, LF])), None)"
    by (simp add: writer_defs)
qed

lemma ragged_text: "csv_text [LF] (example_fieldnames # ragged_rows) = ragged_csv"
  by (simp add: csv_text_def record_text_def join_append_def needs_quote_def
      example_fieldnames_def ragged_rows_def ragged_csv_def)

lemma quoted_text:
  "csv_text [CR, LF] (example_fieldnames # quoted_rows) =
     ''EpicID,Title,JiraTicketID'' @ [CR, LF] @
     ''E1,'' @ [DQUOTE] @ ''Login, '' @ [DQUOTE, DQUOTE] @ ''fast'' @ [DQUOTE, DQUOTE] @ '' flow'' @
       [DQUOTE] @ '','' @ [CR, LF] @
     ''E2,'' @ [DQUOTE] @ ''Bil'' @ [LF] @ ''ling'' @ [DQUOTE] @ '',FER-10'' @ [CR, LF]"
  by (simp add: csv_text_def record_text_def join_append_def needs_quote_def
      example_fieldnames_def quoted_rows_def)

lemma example_text: "csv_text [CR, LF] (example_fieldnames # example_rows) = example_epics_resaved"
  by (simp add: csv_text_def record_text_def join_append_def needs_quote_def
      example_fieldnames_def example_rows_def example_epics_resaved_def)


lemma read_csv_data_cong:
  "fs file_path = fs' file_path \<Longrightarrow> read_csv_data file_path fs = read_csv_data file_path fs'"
  by (simp add: read_csv_data_def)



section \<open>The claims\<close>




text \<open>
  C2. A dry run writes nothing: after \<^verbatim>\<open>sync_epics_to_jira\<close>, \<^verbatim>\<open>sync_backlog_to_jira\<close> or the
  whole script (which calls both with \<^verbatim>\<open>dry_run=True\<close>) every file holds what it held
  before, whatever the files contain and whether or not the run ends in an exception.
\<close>

theorem dry_run_purity:
  "files (sync_epics_to_jira g True fs) = fs \<and>
   files (sync_backlog_to_jira g True fs) = fs \<and>
   files (main environ fs) = fs"
  by (simp add: main_def Let_def dry_run_epics dry_run_backlog split: option.splits)

text \<open>On the example files two records lack a ticket; the dry run leaves the files alone.\<close>

theorem dry_run_purity_witness:
  "outcomes (stdout (main Map.empty example_fs)) =
     [Created ''FER-101'', Skipped ''FER-10'', Created ''FER-102''] \<and>
   (files (sync_epics_to_jira (load_module Map.empty) True example_fs) = example_fs \<and>
    files (sync_backlog_to_jira (load_module Map.empty) True example_fs) = example_fs \<and>
    files (main Map.empty example_fs) = example_fs)"
proof -
  have ev: "outcomes (stdout (main Map.empty example_fs)) =
     [Created ''FER-101'', Skipped ''FER-10'', Created ''FER-102'']"
    by (simp add: example_main outcomes_Cons outcomes_Nil)
  show ?thesis
    by (rule conjI [OF ev dry_run_purity [where g = "load_module Map.empty" and fs = example_fs
          and environ = Map.empty]])
qed







text \<open>
  C5, as stated, fails on the code: an empty source loads as the empty collection, and a
  source whose rows have fewer or more fields than the header loads too, without any
  error.
\<close>

theorem load_no_format_error_counterexample:
  "empty_file_fs ''pm/epics.csv'' = Some (Text []) \<and>
   read_csv_data ''pm/epics.csv'' empty_file_fs = Inr [] \<and>
   ragged_fs ''pm/epics.csv'' = Some (Text ragged_csv) \<and>
   read_csv_data ''pm/epics.csv'' ragged_fs = Inr ragged_epics"
  using ragged_load by (simp add: empty_load empty_file_fs_def ragged_fs_def)

text \<open>
  C5, amended. The load raises \<^verbatim>\<open>FileNotFoundError\<close> when the path does not exist; the run
  then stops after its opening line, with no record processed and no file changed. An
  empty source loads as the empty collection. A source whose rows do not have the
  header's number of fields loads without error: for every header and rows of one or
  more fields each, of whatever number, written as the writer writes them with lines
  ended by \<^verbatim>\<open>\n\<close> or \<^verbatim>\<open>\r\n\<close> (no field holding \<^verbatim>\<open>\r\<close> or longer than the reader's limit),
  the load gives one record for each row; a row with fewer fields than the header has
  \<^verbatim>\<open>None\<close> under the missing names, a row with more fields has the surplus as a list
  under the key \<^verbatim>\<open>None\<close>.
\<close>

theorem load_errors:
  "(fs file_path = None \<longrightarrow> read_csv_data file_path fs = Inl FileNotFoundError) \<and>
   (fs (EPICS_CSV_PATH g) = None \<longrightarrow>
      sync_epics_to_jira g dry_run fs =
        \<lparr>stdout = [Starting_Epic_Sync], files = fs, raised = Some FileNotFoundError\<rparr>) \<and>
   (fs (BACKLOG_CSV_PATH g) = None \<longrightarrow>
      sync_backlog_to_jira g dry_run fs =
        \<lparr>stdout = [Starting_Backlog_Sync], files = fs, raised = Some FileNotFoundError\<rparr>) \<and>
   (fs' file_path' = Some (Text []) \<longrightarrow> read_csv_data file_path' fs' = Inr []) \<and>
   (storable_row fieldnames \<and> list_all storable_row rows \<and> (eol = [LF] \<or> eol = [CR, LF]) \<and>
    fs'' file_path'' = Some (Text (csv_text eol (fieldnames # rows))) \<longrightarrow>
      read_csv_data file_path'' fs'' = Inr (map (make_row_dict fieldnames) rows)) \<and>
   (length row < length fieldnames \<and> k \<in> set (drop (length row) fieldnames) \<longrightarrow>
      dict_get (make_row_dict fieldnames row) (Some k) = NoneVal) \<and>
   (length fieldnames < length row' \<longrightarrow>
      dict_get (make_row_dict fieldnames row') None = StrList (drop (length fieldnames) row'))"
proof -
  have a: "fs file_path = None \<longrightarrow> read_csv_data file_path fs = Inl FileNotFoundError"
    by (simp add: read_csv_data_def)
  have b: "storable_row fieldnames \<and> list_all storable_row rows \<and>
      (eol = [LF] \<or> eol = [CR, LF]) \<and>
      fs'' file_path'' = Some (Text (csv_text eol (fieldnames # rows))) \<longrightarrow>
      read_csv_data file_path'' fs'' = Inr (map (make_row_dict fieldnames) rows)"
    using load_csv_text [of fieldnames rows eol fs'' file_path''] by blast
  from a b show ?thesis
    by (simp add: missing_epics missing_backlog empty_load short_row long_row)
qed

text \<open>No file at all, an empty file, and the file with a short and a long row.\<close>

theorem load_errors_witness:
  "(no_csv_fs ''pm/epics.csv'' = None \<and>
    no_csv_fs (EPICS_CSV_PATH (load_module Map.empty)) = None \<and>
    no_csv_fs (BACKLOG_CSV_PATH (load_module Map.empty)) = None \<and>
    empty_file_fs ''pm/epics.csv'' = Some (Text []) \<and>
    csv_text [LF] (example_fieldnames # ragged_rows) = ragged_csv \<and>
    map (make_row_dict example_fieldnames) ragged_rows = ragged_epics \<and>
    length (ragged_rows ! 0) < length example_fieldnames \<and>
    ''JiraTicketID'' \<in> set (drop (length (ragged_rows ! 0)) example_fieldnames) \<and>
    length example_fieldnames < length (ragged_rows ! 1)) \<and>
   (storable_row example_fieldnames \<and> list_all storable_row ragged_rows \<and>
    ([LF] = [LF] \<or> [LF] = [CR, LF]) \<and>
    ragged_fs ''pm/epics.csv'' = Some (Text (csv_text [LF] (example_fieldnames # ragged_rows)))) \<and>
   read_csv_data ''pm/epics.csv'' no_csv_fs = Inl FileNotFoundError \<and>
   sync_epics_to_jira (load_module Map.empty) False no_csv_fs =
     \<lparr>stdout = [Starting_Epic_Sync], files = no_csv_fs, raised = Some FileNotFoundError\<rparr> \<and>
   sync_backlog_to_jira (load_module Map.empty) False no_csv_fs =
     \<lparr>stdout = [Starting_Backlog_Sync], files = no_csv_fs, raised = Some FileNotFoundError\<rparr> \<and>
   read_csv_data ''pm/epics.csv'' empty_file_fs = Inr [] \<and>
   read_csv_data ''pm/epics.csv'' ragged_fs =
     Inr (map (make_row_dict example_fieldnames) ragged_rows) \<and>
   dict_get (make_row_dict example_fieldnames (ragged_rows ! 0)) (Some ''JiraTicketID'') =
     NoneVal \<and>
   dict_get (make_row_dict example_fieldnames (ragged_rows ! 1)) None =
     StrList (drop (length example_fieldnames) (ragged_rows ! 1))"
proof -
  have h1: "no_csv_fs ''pm/epics.csv'' = None" by (simp add: no_csv_fs_def)
  have h2: "no_csv_fs (EPICS_CSV_PATH (load_module Map.empty)) = None"
    by (simp add: no_csv_fs_def module_paths)
  have h3: "no_csv_fs (BACKLOG_CSV_PATH (load_module Map.empty)) = None"
    by (simp add: no_csv_fs_def module_paths)
  have h4: "empty_file_fs ''pm/epics.csv'' = Some (Text [])" by (simp add: empty_file_fs_def)
  have h5: "storable_row example_fieldnames \<and> list_all storable_row ragged_rows \<and>
    ([LF] = [LF] \<or> [LF] = [CR, LF]) \<and>
    ragged_fs ''pm/epics.csv'' = Some (Text (csv_text [LF] (example_fieldnames # ragged_rows)))"
    by (simp add: ragged_text ragged_fs_def)
       (simp add: storable_row_def storable_field_def field_limit_def example_fieldnames_def
         ragged_rows_def)
  have h6: "length (ragged_rows ! 0) < length example_fieldnames \<and>
    ''JiraTicketID'' \<in> set (drop (length (ragged_rows ! 0)) example_fieldnames)"
    by (simp add: example_fieldnames_def ragged_rows_def)
  have h7: "length example_fieldnames < length (ragged_rows ! 1)"
    by (simp add: example_fieldnames_def ragged_rows_def)
  have m: "map (make_row_dict example_fieldnames) ragged_rows = ragged_epics"
    by (simp add: make_row_dict_def dict_of_zip_def example_fieldnames_def ragged_rows_def
        ragged_epics_def)
  note t1 = load_errors [where fs = no_csv_fs and file_path = "''pm/epics.csv''"
      and g = "load_module Map.empty" and dry_run = False
      and fs' = empty_file_fs and file_path' = "''pm/epics.csv''"
      and fs'' = ragged_fs and file_path'' = "''pm/epics.csv''"
      and fieldnames = example_fieldnames and rows = ragged_rows and eol = "[LF]"
      and row = "ragged_rows ! 0" and k = "''JiraTicketID''" and row' = "ragged_rows ! 1"]
  note t2 = conjunct2 [OF t1]
  note t3 = conjunct2 [OF t2]
  note t4 = conjunct2 [OF t3]
  note t5 = conjunct2 [OF t4]
  note t6 = conjunct2 [OF t5]
  note c1 = mp [OF conjunct1 [OF t1] h1]
  note c2 = mp [OF conjunct1 [OF t2] h2]
  note c3 = mp [OF conjunct1 [OF t3] h3]
  note c4 = mp [OF conjunct1 [OF t4] h4]
  note c5 = mp [OF conjunct1 [OF t5] h5]
  note c6 = mp [OF conjunct1 [OF t6] h6]
  note c7 = mp [OF conjunct2 [OF t6] h7]
  have hs: "no_csv_fs ''pm/epics.csv'' = None \<and>
    no_csv_fs (EPICS_CSV_PATH (load_module Map.empty)) = None \<and>
    no_csv_fs (BACKLOG_CSV_PATH (load_module Map.empty)) = None \<and>
    empty_file_fs ''pm/epics.csv'' = Some (Text []) \<and>
    csv_text [LF] (example_fieldnames # ragged_rows) = ragged_csv \<and>
    map (make_row_dict example_fieldnames) ragged_rows = ragged_epics \<and>
    length (ragged_rows ! 0) < length example_fieldnames \<and>
    ''JiraTicketID'' \<in> set (drop (length (ragged_rows ! 0)) example_fieldnames) \<and>
    length example_fieldnames < length (ragged_rows ! 1)"
    using h1 h2 h3 h4 h6 h7 m ragged_text by blast
  show ?thesis
    by (rule conjI [OF hs conjI [OF h5 conjI [OF c1 conjI [OF c2 conjI [OF c3 conjI [OF c4
          conjI [OF c5 conjI [OF c6 c7]]]]]]]])
qed

text \<open>
  C6, as stated, fails on the code: the save empties the file and writes into it; when the
  second row raises, the destination holds the header and the first row only, which is
  neither what it held before nor the whole collection.
\<close>

theorem save_not_atomic_counterexample:
  "long_row_fs ''pm/epics.csv'' = Some (Text long_row_csv) \<and>
   read_csv_data ''pm/epics.csv'' long_row_fs = Inr long_row_epics \<and>
   dict_keys (long_row_epics ! 0) = example_keys \<and>
   fst (update_csv_data ''pm/epics.csv'' long_row_epics example_keys long_row_fs) ''pm/epics.csv'' =
     Some (Text long_row_saved) \<and>
   snd (update_csv_data ''pm/epics.csv'' long_row_epics example_keys long_row_fs) =
     Some ValueError \<and>
   long_row_saved \<noteq> long_row_csv \<and>
   files (sync_epics_to_jira (load_module Map.empty) False long_row_fs) ''pm/epics.csv'' =
     Some (Text long_row_saved) \<and>
   raised (sync_epics_to_jira (load_module Map.empty) False long_row_fs) = Some ValueError"
proof -
  have l: "read_csv_data ''pm/epics.csv'' long_row_fs = Inr long_row_epics"
    using long_row_load by (simp add: long_row_fs_def)
  have k: "dict_keys (long_row_epics ! 0) = example_keys"
    by (simp add: long_row_epics_def dict_keys_def example_keys_def)
  have s: "update_csv_data ''pm/epics.csv'' long_row_epics example_keys long_row_fs =
           (long_row_fs(''pm/epics.csv'' \<mapsto> Text long_row_saved), Some ValueError)"
    by (simp add: example_keys_def long_row_save)
  have n: "long_row_saved \<noteq> long_row_csv"
    by (simp add: long_row_saved_def long_row_csv_def)
  have r: "read_csv_data (EPICS_CSV_PATH (load_module Map.empty)) long_row_fs = Inr long_row_epics"
    by (simp add: module_paths l)
  have lp: "epics_loop False long_row_epics =
      ([Skipping_Epic ''Login'' ''FER-1'', Skipping_Epic ''Billing'' ''FER-2''],
       hd long_row_epics # tl long_row_epics, None)"
    by (simp add: long_row_loop) (simp add: long_row_epics_def)
  have s': "update_csv_data (EPICS_CSV_PATH (load_module Map.empty))
              (hd long_row_epics # tl long_row_epics) (dict_keys (hd long_row_epics)) long_row_fs =
            (long_row_fs(''pm/epics.csv'' \<mapsto> Text long_row_saved), Some ValueError)"
    using s k by (simp add: module_paths) (simp add: long_row_epics_def)
  note run = sync_epics_commit [OF r lp s']
  show ?thesis using l k s n by (simp add: run) (simp add: long_row_fs_def)
qed

text \<open>
  C6, amended. The save overwrites the destination in place, with no temporary file and
  no rename: it writes the header, then the rows in order up to the first row that has
  a key outside the field names. When there is no such row it returns normally and the
  destination holds the header and every row; otherwise it raises \<^verbatim>\<open>ValueError\<close> and the
  destination holds the header and the rows before that one. Other files are untouched.
\<close>

theorem save_in_place:
  "update_csv_data file_path data fieldnames fs =
     (fs(file_path \<mapsto>
          Text (writerow (header_row fieldnames) @
                concat (map (\<lambda>d. writerow (dict_to_list fieldnames d))
                            (takeWhile (\<lambda>d. wrong_fields fieldnames d = []) data)))),
      if list_all (\<lambda>d. wrong_fields fieldnames d = []) data then None else Some ValueError)"
  by (simp add: update_csv_data_def writerows_takeWhile)

text \<open>The collection with the long row: the header and the first row are what is left.\<close>

theorem save_in_place_witness:
  "(\<not> list_all (\<lambda>d. wrong_fields example_keys d = []) long_row_epics \<and>
    writerow (header_row example_keys) @
      concat (map (\<lambda>d. writerow (dict_to_list example_keys d))
                  (takeWhile (\<lambda>d. wrong_fields example_keys d = []) long_row_epics)) =
      long_row_saved) \<and>
   update_csv_data ''pm/epics.csv'' long_row_epics example_keys long_row_fs =
     (long_row_fs(''pm/epics.csv'' \<mapsto>
          Text (writerow (header_row example_keys) @
                concat (map (\<lambda>d. writerow (dict_to_list example_keys d))
                            (takeWhile (\<lambda>d. wrong_fields example_keys d = []) long_row_epics)))),
      if list_all (\<lambda>d. wrong_fields example_keys d = []) long_row_epics
      then None else Some ValueError)"
proof -
  have ev: "\<not> list_all (\<lambda>d. wrong_fields example_keys d = []) long_row_epics \<and>
    writerow (header_row example_keys) @
      concat (map (\<lambda>d. writerow (dict_to_list example_keys d))
                  (takeWhile (\<lambda>d. wrong_fields example_keys d = []) long_row_epics)) =
      long_row_saved"
    by (simp add: example_keys_def long_row_epics_def long_row_saved_def writer_defs)
  show ?thesis
    by (rule conjI [OF ev save_in_place [where file_path = "''pm/epics.csv''"
          and data = long_row_epics and fieldnames = example_keys and fs = long_row_fs]])
qed

text \<open>
  C7, as stated, fails on the code: a commit run in which every record is skipped still
  writes the file back, here with other line ends than it had.
\<close>

theorem commit_saves_clean_counterexample:
  "synced_fs ''pm/epics.csv'' = Some (Text synced_epics_csv) \<and>
   outcomes (stdout (sync_epics_to_jira (load_module Map.empty) False synced_fs)) =
     [Skipped ''FER-999''] \<and>
   raised (sync_epics_to_jira (load_module Map.empty) False synced_fs) = None \<and>
   files (sync_epics_to_jira (load_module Map.empty) False synced_fs) ''pm/epics.csv'' =
     Some (Text synced_epics_saved) \<and>
   synced_epics_saved \<noteq> synced_epics_csv"
proof -
  have r: "read_csv_data (EPICS_CSV_PATH (load_module Map.empty)) synced_fs = Inr synced_epics"
    by (simp add: module_paths synced_epics_load)
  have lp: "epics_loop False synced_epics =
      ([Skipping_Epic ''Search'' ''FER-999''], hd synced_epics # tl synced_epics, None)"
    by (simp add: synced_epics_loop) (simp add: synced_epics_def)
  have s: "update_csv_data (EPICS_CSV_PATH (load_module Map.empty))
              (hd synced_epics # tl synced_epics) (dict_keys (hd synced_epics)) synced_fs =
            (synced_fs(''pm/epics.csv'' \<mapsto> Text synced_epics_saved), None)"
    using synced_epics_save [of synced_fs]
    by (simp add: module_paths) (simp add: synced_epics_def dict_keys_def)
  note run = sync_epics_commit [OF r lp s]
  have n: "synced_epics_saved \<noteq> synced_epics_csv"
    by (simp add: synced_epics_saved_def synced_epics_csv_def)
  show ?thesis using n
    by (simp add: run outcomes_Cons outcomes_Nil) (simp add: synced_fs_def)
qed

text \<open>
  C7, amended. In commit mode the save is invoked exactly when the source has loaded, the
  loop has ended without an exception and the collection is not empty, whether or not
  any outcome was \<open>Created\<close>: the file system after the run is then the one the save
  leaves. In every other case the run leaves every file as it was. This holds for each
  of the two sources on its own.
\<close>

theorem commit_always_saves:
  "files (sync_epics_to_jira g False fs) =
     (case read_csv_data (EPICS_CSV_PATH g) fs of
        Inl x \<Rightarrow> fs
      | Inr epics_data \<Rightarrow>
          (case epics_loop False epics_data of
             (out, epics_data', e) \<Rightarrow>
               (case e of
                  Some x \<Rightarrow> fs
                | None \<Rightarrow>
                    (case epics_data' of
                       [] \<Rightarrow> fs
                     | first # rest \<Rightarrow>
                         fst (update_csv_data (EPICS_CSV_PATH g) epics_data'
                                (dict_keys first) fs))))) \<and>
   files (sync_backlog_to_jira g' False fs') =
     (case read_csv_data (BACKLOG_CSV_PATH g') fs' of
        Inl x \<Rightarrow> fs'
      | Inr backlog_data \<Rightarrow>
          (case backlog_loop False backlog_data of
             (out, backlog_data', e) \<Rightarrow>
               (case e of
                  Some x \<Rightarrow> fs'
                | None \<Rightarrow>
                    (case backlog_data' of
                       [] \<Rightarrow> fs'
                     | first # rest \<Rightarrow>
                         fst (update_csv_data (BACKLOG_CSV_PATH g') backlog_data'
                                (dict_keys first) fs')))))"
  by (simp add: sync_epics_to_jira_def sync_backlog_to_jira_def
      split: sum.splits prod.splits option.splits list.splits)

text \<open>
  The epics file alone, its one record already synchronised: it is written back, with
  other line ends.
\<close>

theorem commit_always_saves_witness:
  "(epics_only_fs ''pm/sprint_backlog.csv'' = None \<and>
    read_csv_data (EPICS_CSV_PATH (load_module Map.empty)) epics_only_fs = Inr synced_epics \<and>
    epics_loop False synced_epics = ([Skipping_Epic ''Search'' ''FER-999''], synced_epics, None) \<and>
    fst (update_csv_data (EPICS_CSV_PATH (load_module Map.empty)) synced_epics
           (dict_keys (synced_epics ! 0)) epics_only_fs) ''pm/epics.csv'' =
      Some (Text synced_epics_saved)) \<and>
   files (sync_epics_to_jira (load_module Map.empty) False epics_only_fs) =
     (case read_csv_data (EPICS_CSV_PATH (load_module Map.empty)) epics_only_fs of
        Inl x \<Rightarrow> epics_only_fs
      | Inr epics_data \<Rightarrow>
          (case epics_loop False epics_data of
             (out, epics_data', e) \<Rightarrow>
               (case e of
                  Some x \<Rightarrow> epics_only_fs
                | None \<Rightarrow>
                    (case epics_data' of
                       [] \<Rightarrow> epics_only_fs
                     | first # rest \<Rightarrow>
                         fst (update_csv_data (EPICS_CSV_PATH (load_module Map.empty)) epics_data'
                                (dict_keys first) epics_only_fs))))) \<and>
   files (sync_backlog_to_jira (load_module Map.empty) False epics_only_fs) =
     (case read_csv_data (BACKLOG_CSV_PATH (load_module Map.empty)) epics_only_fs of
        Inl x \<Rightarrow> epics_only_fs
      | Inr backlog_data \<Rightarrow>
          (case backlog_loop False backlog_data of
             (out, backlog_data', e) \<Rightarrow>
               (case e of
                  Some x \<Rightarrow> epics_only_fs
                | None \<Rightarrow>
                    (case backlog_data' of
                       [] \<Rightarrow> epics_only_fs
                     | first # rest \<Rightarrow>
                         fst (update_csv_data (BACKLOG_CSV_PATH (load_module Map.empty))
                                backlog_data' (dict_keys first) epics_only_fs)))))"
proof -
  have r: "read_csv_data ''pm/epics.csv'' epics_only_fs = Inr synced_epics"
    using read_csv_data_cong [of epics_only_fs "''pm/epics.csv''" synced_fs] synced_epics_load
    by (simp add: epics_only_fs_def synced_fs_def)
  have ev: "epics_only_fs ''pm/sprint_backlog.csv'' = None \<and>
    read_csv_data (EPICS_CSV_PATH (load_module Map.empty)) epics_only_fs = Inr synced_epics \<and>
    epics_loop False synced_epics = ([Skipping_Epic ''Search'' ''FER-999''], synced_epics, None) \<and>
    fst (update_csv_data (EPICS_CSV_PATH (load_module Map.empty)) synced_epics
           (dict_keys (synced_epics ! 0)) epics_only_fs) ''pm/epics.csv'' =
      Some (Text synced_epics_saved)"
    using r synced_epics_save [of epics_only_fs]
    by (simp add: module_paths synced_epics_loop)
       (simp add: epics_only_fs_def synced_epics_def dict_keys_def)
  show ?thesis
    by (rule conjI [OF ev commit_always_saves [where g = "load_module Map.empty"
          and fs = epics_only_fs and g' = "load_module Map.empty" and fs' = epics_only_fs]])
qed

text \<open>
  C8, as stated, fails on the code: with \<^verbatim>\<open>JIRA_API_TOKEN\<close> not set the script runs to its
  end without an exception and without a message about the credential, and gives keys
  to the records that had none.
\<close>

theorem credential_absent_counterexample:
  "JIRA_API_TOKEN (load_module Map.empty) = None \<and>
   raised (main Map.empty example_fs) = None \<and>
   outcomes (stdout (main Map.empty example_fs)) =
     [Created ''FER-101'', Skipped ''FER-10'', Created ''FER-102'']"
  by (simp add: example_main outcomes_Cons outcomes_Nil) (simp add: load_module_def)

text \<open>
  C8, amended. The credential is read from the environment when the module is loaded and
  never looked at again: a run with any value of \<^verbatim>\<open>JIRA_API_TOKEN\<close>, or none, prints the
  same, leaves the same files and ends the same way. Records without a ticket are not
  treated as skipped because of it.
\<close>

theorem credential_ignored:
  "sync_epics_to_jira (g\<lparr>JIRA_API_TOKEN := t\<rparr>) dry_run fs = sync_epics_to_jira g dry_run fs \<and>
   sync_backlog_to_jira (g\<lparr>JIRA_API_TOKEN := t\<rparr>) dry_run fs = sync_backlog_to_jira g dry_run fs \<and>
   main (environ(''JIRA_API_TOKEN'' := t)) fs = main environ fs"
  by (simp add: main_token sync_epics_token sync_backlog_token)

text \<open>The example files, with a token and without.\<close>

theorem credential_ignored_witness:
  "JIRA_API_TOKEN (load_module (Map.empty(''JIRA_API_TOKEN'' := Some ''secret''))) = Some ''secret'' \<and>
   (sync_epics_to_jira ((load_module Map.empty)\<lparr>JIRA_API_TOKEN := Some ''secret''\<rparr>) True example_fs =
      sync_epics_to_jira (load_module Map.empty) True example_fs \<and>
    sync_backlog_to_jira ((load_module Map.empty)\<lparr>JIRA_API_TOKEN := Some ''secret''\<rparr>) True example_fs =
      sync_backlog_to_jira (load_module Map.empty) True example_fs \<and>
    main (Map.empty(''JIRA_API_TOKEN'' := Some ''secret'')) example_fs = main Map.empty example_fs)"
proof -
  have ev: "JIRA_API_TOKEN (load_module (Map.empty(''JIRA_API_TOKEN'' := Some ''secret''))) =
      Some ''secret''"
    by (simp add: load_module_def)
  show ?thesis
    by (rule conjI [OF ev credential_ignored [where g = "load_module Map.empty"
          and t = "Some ''secret''" and dry_run = True and fs = example_fs
          and environ = Map.empty]])
qed

text \<open>
  C9, as stated, fails on the code. The example file, whose lines end in \<^verbatim>\<open>\n\<close>, is
  written back with lines ending in \<^verbatim>\<open>\r\n\<close> though no field was changed. So is a file
  changed that quotes a field without need, that has two columns of one name (one is
  lost), or that has a \<^verbatim>\<open>\r\<close> inside a quoted field (it comes back as \<^verbatim>\<open>\n\<close>).
\<close>

theorem round_trip_counterexample:
  "(example_fs ''pm/epics.csv'' = Some (Text example_epics_csv) \<and>
    read_csv_data ''pm/epics.csv'' example_fs = Inr example_epics \<and>
    dict_keys (example_epics ! 0) = example_keys \<and>
    update_csv_data ''pm/epics.csv'' example_epics example_keys example_fs =
      (example_fs(''pm/epics.csv'' \<mapsto> Text example_epics_resaved), None) \<and>
    example_epics_resaved \<noteq> example_epics_csv) \<and>
   (read_csv_data ''pm/epics.csv'' [''pm/epics.csv'' \<mapsto> Text needless_quotes_csv] =
      Inr [[(Some ''EpicID'', Str ''E1''), (Some ''Title'', Str ''Login'')]] \<and>
    update_csv_data ''pm/epics.csv'' [[(Some ''EpicID'', Str ''E1''), (Some ''Title'', Str ''Login'')]]
      [Some ''EpicID'', Some ''Title''] [''pm/epics.csv'' \<mapsto> Text needless_quotes_csv] =
      ([''pm/epics.csv'' \<mapsto> Text needless_quotes_csv]
         (''pm/epics.csv'' \<mapsto> Text (''EpicID,Title'' @ [CR, LF] @ ''E1,Login'' @ [CR, LF])), None) \<and>
    ''EpicID,Title'' @ [CR, LF] @ ''E1,Login'' @ [CR, LF] \<noteq> needless_quotes_csv) \<and>
   (read_csv_data ''pm/epics.csv'' [''pm/epics.csv'' \<mapsto> Text same_names_csv] =
      Inr [[(Some ''Title'', Str ''Billing'')]] \<and>
    update_csv_data ''pm/epics.csv'' [[(Some ''Title'', Str ''Billing'')]] [Some ''Title'']
      [''pm/epics.csv'' \<mapsto> Text same_names_csv] =
      ([''pm/epics.csv'' \<mapsto> Text same_names_csv]
         (''pm/epics.csv'' \<mapsto> Text (''Title'' @ [CR, LF] @ ''Billing'' @ [CR, LF])), None) \<and>
    ''Title'' @ [CR, LF] @ ''Billing'' @ [CR, LF] \<noteq> same_names_csv) \<and>
   (read_csv_data ''pm/epics.csv'' [''pm/epics.csv'' \<mapsto> Text inner_cr_csv] =
      Inr [[(Some ''EpicID'', Str ''E1''), (Some ''Title'', Str (''Log'' @ [LF] @ ''in''))]] \<and>
    update_csv_data ''pm/epics.csv''
      [[(Some ''EpicID'', Str ''E1''), (Some ''Title'', Str (''Log'' @ [LF] @ ''in''))]]
      [Some ''EpicID'', Some ''Title''] [''pm/epics.csv'' \<mapsto> Text inner_cr_csv] =
      ([''pm/epics.csv'' \<mapsto> Text inner_cr_csv]
         (''pm/epics.csv'' \<mapsto>
            Text (''EpicID,Title'' @ [CR, LF] @ ''E1,'' @ [DQUOTE] @ ''Log'' @ [LF] @ ''in'' @
                  [DQUOTE] @ [CR, LF])), None) \<and>
    ''EpicID,Title'' @ [CR, LF] @ ''E1,'' @ [DQUOTE] @ ''Log'' @ [LF] @ ''in'' @ [DQUOTE] @ [CR, LF] \<noteq>
      inner_cr_csv)"
proof -
  have k: "dict_keys (example_epics ! 0) = example_keys"
    by (simp add: example_epics_def dict_keys_def example_keys_def)
  have n: "example_epics_resaved \<noteq> example_epics_csv"
    by (simp add: example_epics_resaved_def example_epics_csv_def)
  have s: "update_csv_data ''pm/epics.csv'' example_epics example_keys example_fs =
     (example_fs(''pm/epics.csv'' \<mapsto> Text example_epics_resaved), None)"
    by (simp add: example_keys_def example_epics_resave)
  have f: "example_fs ''pm/epics.csv'' = Some (Text example_epics_csv)"
    by (simp add: example_fs_def)
  have a: "example_fs ''pm/epics.csv'' = Some (Text example_epics_csv) \<and>
    read_csv_data ''pm/epics.csv'' example_fs = Inr example_epics \<and>
    dict_keys (example_epics ! 0) = example_keys \<and>
    update_csv_data ''pm/epics.csv'' example_epics example_keys example_fs =
      (example_fs(''pm/epics.csv'' \<mapsto> Text example_epics_resaved), None) \<and>
    example_epics_resaved \<noteq> example_epics_csv"
    using f example_epics_load k s n by blast
  have n1: "''EpicID,Title'' @ [CR, LF] @ ''E1,Login'' @ [CR, LF] \<noteq> needless_quotes_csv"
    by (simp add: needless_quotes_csv_def)
  have n2: "''Title'' @ [CR, LF] @ ''Billing'' @ [CR, LF] \<noteq> same_names_csv"
    by (simp add: same_names_csv_def)
  have n3: "''EpicID,Title'' @ [CR, LF] @ ''E1,'' @ [DQUOTE] @ ''Log'' @ [LF] @ ''in'' @ [DQUOTE] @
      [CR, LF] \<noteq> inner_cr_csv"
    by (simp add: inner_cr_csv_def)
  show ?thesis
    by (rule conjI [OF a conjI [OF conjI [OF needless_quotes_trip(1) conjI [OF needless_quotes_trip(2) n1]]
          conjI [OF conjI [OF same_names_trip(1) conjI [OF same_names_trip(2) n2]]
                     conjI [OF inner_cr_trip(1) conjI [OF inner_cr_trip(2) n3]]]]])
qed

text \<open>
  C9, amended. Let the source be what the writer writes for a header of at least one
  column, all names different, and any number of data rows, every row with as many
  fields as the header: fields joined by commas, a field in double quotes (its own quotes
  doubled) exactly when it holds a comma, a double quote, \<^verbatim>\<open>\r\<close> or \<^verbatim>\<open>\n\<close>, a line of
  one empty field written as two double quotes, every line ended by \<^verbatim>\<open>\r\n\<close>. If no
  field holds a \<^verbatim>\<open>\r\<close> or is longer than the reader's limit, then the load gives one
  record for each data row, in order, with the header's names as its keys, in order, and
  the row's fields as their values; and saving what was loaded under the header's names
  (the field names of every loaded record, so also of the first, which is where the
  script takes them) leaves the file system as it was: the file is reproduced character
  for character.
\<close>

theorem written_round_trip:
  assumes "fieldnames \<noteq> []" and "distinct fieldnames"
    and "list_all (\<lambda>row. length row = length fieldnames) rows"
    and "list_all (list_all storable_field) (fieldnames # rows)"
    and "fs file_path = Some (Text (csv_text [CR, LF] (fieldnames # rows)))"
  shows "read_csv_data file_path fs = Inr (map (row_dict fieldnames) rows) \<and>
         list_all (\<lambda>d. dict_keys d = map Some fieldnames) (map (row_dict fieldnames) rows) \<and>
         update_csv_data file_path (map (row_dict fieldnames) rows) (map Some fieldnames) fs =
           (fs, None)"
proof -
  have sh: "storable_row fieldnames" using assms(1,4) by (simp add: storable_row_def)
  have sr: "list_all storable_row rows"
    using assms(1,3,4) by (auto simp: list_all_iff storable_row_def)
  have "read_csv_data file_path fs = Inr (map (make_row_dict fieldnames) rows)"
    using sh sr _ assms(5) by (rule load_csv_text) simp
  moreover have "map (make_row_dict fieldnames) rows = map (row_dict fieldnames) rows"
    using assms(2,3) by (auto simp: list_all_iff make_row_dict_full)
  ultimately have load: "read_csv_data file_path fs = Inr (map (row_dict fieldnames) rows)"
    by simp
  have keys: "list_all (\<lambda>d. dict_keys d = map Some fieldnames) (map (row_dict fieldnames) rows)"
    using assms(3) by (auto simp: list_all_iff dict_keys_row_dict)
  have "fs(file_path \<mapsto> Text (csv_text [CR, LF] (fieldnames # rows))) = fs"
    using assms(5) by (rule map_upd_triv)
  with save_csv_text [OF assms(2,3), of file_path fs]
  have "update_csv_data file_path (map (row_dict fieldnames) rows) (map Some fieldnames) fs =
        (fs, None)" by simp
  with load keys show ?thesis by simp
qed

text \<open>
  A collection with a comma, double quotes and a line break inside its titles, in the
  writer's form; the script's own save of what it loaded, under the first record's keys.
\<close>

theorem written_round_trip_witness:
  "(csv_text [CR, LF] (example_fieldnames # quoted_rows) =
      ''EpicID,Title,JiraTicketID'' @ [CR, LF] @
      ''E1,'' @ [DQUOTE] @ ''Login, '' @ [DQUOTE, DQUOTE] @ ''fast'' @ [DQUOTE, DQUOTE] @ '' flow'' @
        [DQUOTE] @ '','' @ [CR, LF] @
      ''E2,'' @ [DQUOTE] @ ''Bil'' @ [LF] @ ''ling'' @ [DQUOTE] @ '',FER-10'' @ [CR, LF] \<and>
    map (row_dict example_fieldnames) quoted_rows = quoted_epics \<and>
    dict_keys (quoted_epics ! 0) = map Some example_fieldnames) \<and>
   (example_fieldnames \<noteq> [] \<and> distinct example_fieldnames \<and>
    list_all (\<lambda>row. length row = length example_fieldnames) quoted_rows \<and>
    list_all (list_all storable_field) (example_fieldnames # quoted_rows) \<and>
    quoted_fs ''pm/epics.csv'' =
      Some (Text (csv_text [CR, LF] (example_fieldnames # quoted_rows)))) \<and>
   read_csv_data ''pm/epics.csv'' quoted_fs = Inr (map (row_dict example_fieldnames) quoted_rows) \<and>
   list_all (\<lambda>d. dict_keys d = map Some example_fieldnames)
     (map (row_dict example_fieldnames) quoted_rows) \<and>
   update_csv_data ''pm/epics.csv'' (map (row_dict example_fieldnames) quoted_rows)
     (map Some example_fieldnames) quoted_fs = (quoted_fs, None)"
proof -
  have h1: "example_fieldnames \<noteq> []" by (simp add: example_fieldnames_def)
  have h2: "distinct example_fieldnames" by (simp add: example_fieldnames_def)
  have h4: "list_all (\<lambda>row. length row = length example_fieldnames) quoted_rows"
    by (simp add: example_fieldnames_def quoted_rows_def)
  have h5: "list_all (list_all storable_field) (example_fieldnames # quoted_rows)"
    by (simp add: example_fieldnames_def quoted_rows_def storable_field_def field_limit_def)
  have h6: "quoted_fs ''pm/epics.csv'' =
      Some (Text (csv_text [CR, LF] (example_fieldnames # quoted_rows)))"
    by (simp add: quoted_fs_def)
  have hs: "example_fieldnames \<noteq> [] \<and> distinct example_fieldnames \<and>
    list_all (\<lambda>row. length row = length example_fieldnames) quoted_rows \<and>
    list_all (list_all storable_field) (example_fieldnames # quoted_rows) \<and>
    quoted_fs ''pm/epics.csv'' =
      Some (Text (csv_text [CR, LF] (example_fieldnames # quoted_rows)))"
    using h1 h2 h4 h5 h6 by blast
  have m: "map (row_dict example_fieldnames) quoted_rows = quoted_epics"
    by (simp add: row_dict_def example_fieldnames_def quoted_rows_def quoted_epics_def)
  have k: "dict_keys (quoted_epics ! 0) = map Some example_fieldnames"
    by (simp add: dict_keys_def example_fieldnames_def quoted_epics_def)
  have ev: "csv_text [CR, LF] (example_fieldnames # quoted_rows) =
      ''EpicID,Title,JiraTicketID'' @ [CR, LF] @
      ''E1,'' @ [DQUOTE] @ ''Login, '' @ [DQUOTE, DQUOTE] @ ''fast'' @ [DQUOTE, DQUOTE] @ '' flow'' @
        [DQUOTE] @ '','' @ [CR, LF] @
      ''E2,'' @ [DQUOTE] @ ''Bil'' @ [LF] @ ''ling'' @ [DQUOTE] @ '',FER-10'' @ [CR, LF] \<and>
    map (row_dict example_fieldnames) quoted_rows = quoted_epics \<and>
    dict_keys (quoted_epics ! 0) = map Some example_fieldnames"
    using quoted_text m k by blast
  show ?thesis
    by (rule conjI [OF ev conjI [OF hs written_round_trip [where fs = quoted_fs
          and file_path = "''pm/epics.csv''", OF h1 h2 h4 h5 h6]]])
qed

text \<open>
  C10. When the file holds no record, a commit run raises \<^verbatim>\<open>IndexError\<close> at the write-back
  (\<^verbatim>\<open>epics_data[0]\<close> of an empty list): only the opening line is printed, no file is
  changed, and the run does not end normally. The dry run of the same file ends normally
  with no outcome. This holds for the epics file and for the backlog file, each on its
  own, whatever else the file system holds.
\<close>

theorem empty_collection_commit:
  "(read_csv_data (EPICS_CSV_PATH g) fs = Inr [] \<longrightarrow>
      sync_epics_to_jira g False fs =
        \<lparr>stdout = [Starting_Epic_Sync], files = fs, raised = Some IndexError\<rparr> \<and>
      sync_epics_to_jira g True fs =
        \<lparr>stdout = [Starting_Epic_Sync, Epic_Sync_Complete], files = fs, raised = None\<rparr>) \<and>
   (read_csv_data (BACKLOG_CSV_PATH g') fs' = Inr [] \<longrightarrow>
      sync_backlog_to_jira g' False fs' =
        \<lparr>stdout = [Starting_Backlog_Sync], files = fs', raised = Some IndexError\<rparr> \<and>
      sync_backlog_to_jira g' True fs' =
        \<lparr>stdout = [Starting_Backlog_Sync, Backlog_Sync_Complete], files = fs', raised = None\<rparr>)"
  by (simp add: sync_epics_to_jira_def sync_backlog_to_jira_def)

text \<open>
  An epics file with only its header, beside a backlog file; and an empty backlog file
  with no epics file beside it.
\<close>

theorem empty_collection_commit_witness:
  "(read_csv_data (EPICS_CSV_PATH (load_module Map.empty)) header_only_fs = Inr [] \<and>
    read_csv_data (BACKLOG_CSV_PATH (load_module Map.empty)) backlog_only_fs = Inr [] \<and>
    backlog_only_fs ''pm/epics.csv'' = None) \<and>
   (sync_epics_to_jira (load_module Map.empty) False header_only_fs =
      \<lparr>stdout = [Starting_Epic_Sync], files = header_only_fs, raised = Some IndexError\<rparr> \<and>
    sync_epics_to_jira (load_module Map.empty) True header_only_fs =
      \<lparr>stdout = [Starting_Epic_Sync, Epic_Sync_Complete], files = header_only_fs,
       raised = None\<rparr>) \<and>
   (sync_backlog_to_jira (load_module Map.empty) False backlog_only_fs =
      \<lparr>stdout = [Starting_Backlog_Sync], files = backlog_only_fs, raised = Some IndexError\<rparr> \<and>
    sync_backlog_to_jira (load_module Map.empty) True backlog_only_fs =
      \<lparr>stdout = [Starting_Backlog_Sync, Backlog_Sync_Complete], files = backlog_only_fs,
       raised = None\<rparr>)"
proof -
  have h1: "read_csv_data (EPICS_CSV_PATH (load_module Map.empty)) header_only_fs = Inr []"
    by (simp add: module_paths header_only_load)
  have h2: "read_csv_data (BACKLOG_CSV_PATH (load_module Map.empty)) backlog_only_fs = Inr []"
    by (simp add: module_paths empty_load backlog_only_fs_def)
  have h3: "backlog_only_fs ''pm/epics.csv'' = None" by (simp add: backlog_only_fs_def)
  note t = empty_collection_commit [where g = "load_module Map.empty" and fs = header_only_fs
      and g' = "load_module Map.empty" and fs' = backlog_only_fs]
  note c1 = mp [OF conjunct1 [OF t] h1]
  note c2 = mp [OF conjunct2 [OF t] h2]
  show ?thesis
    by (rule conjI [OF conjI [OF h1 conjI [OF h2 h3]] conjI [OF c1 c2]])
qed

end
